theory Spec2Isabelle
  imports Main
begin

section \<open>JavaScript values and the string operations the scripts use\<close>

text \<open>
  Both scripts work on values produced by \<open>JSON.parse\<close> and on object literals they build
  themselves. A value is one of the JSON kinds, or \<open>undefined\<close> (the result of reading a
  property that is absent). An object is the list of its properties in the order in
  which \<open>Object.keys\<close> enumerates them, with pairwise distinct keys. Numbers are
  modelled by integers and strings by lists of \<open>char\<close>.
\<close>

datatype jsv =
    Undefined
  | Null
  | Bool bool
  | Num int
  | Str string
  | Arr "jsv list"
  | Obj "(string \<times> jsv) list"

text \<open>Errors of the reconciler script: an uncaught exception ends the whole run.\<close>

datatype sync_error =
    TypeError
  | ReadError string
  | ApiFailed string

text \<open>
  \<open>x.k\<close> for a value that is neither \<open>null\<close> nor \<open>undefined\<close>. The scripts read only
  named properties (never \<open>length\<close> or an index), so arrays and primitives have none of
  them.
\<close>

fun getp :: "jsv \<Rightarrow> string \<Rightarrow> jsv" where
  "getp (Obj kvs) k = (case map_of kvs k of Some v \<Rightarrow> v | None \<Rightarrow> Undefined)"
| "getp _ k = Undefined"

definition nullish :: "jsv \<Rightarrow> bool" where
  "nullish v = (v = Null \<or> v = Undefined)"

text \<open>\<open>obj.k = v\<close> on an object literal: replaces the value in place, or appends the key.\<close>

fun set_prop :: "(string \<times> jsv) list \<Rightarrow> string \<Rightarrow> jsv \<Rightarrow> (string \<times> jsv) list" where
  "set_prop [] k v = [(k, v)]"
| "set_prop ((k', v') # kvs) k v =
     (if k' = k then (k, v) # kvs else (k', v') # set_prop kvs k v)"

text \<open>\<open>s.startsWith(p)\<close>, \<open>s.endsWith(p)\<close>, \<open>s.includes(p)\<close> on strings.\<close>

fun startsWith :: "string \<Rightarrow> string \<Rightarrow> bool" where
  "startsWith s [] = True"
| "startsWith [] (p # ps) = False"
| "startsWith (c # s) (p # ps) = (c = p \<and> startsWith s ps)"

definition endsWith :: "string \<Rightarrow> string \<Rightarrow> bool" where
  "endsWith s p = startsWith (rev s) (rev p)"

fun includes_str :: "string \<Rightarrow> string \<Rightarrow> bool" where
  "includes_str [] p = (p = [])"
| "includes_str (c # s) p = (startsWith (c # s) p \<or> includes_str s p)"

text \<open>\<open>s.split(c)\<close> with a one-character separator: never empty, \<open>"".split(c)\<close> is \<open>[""]\<close>.\<close>

fun split :: "char \<Rightarrow> string \<Rightarrow> string list" where
  "split sep [] = [[]]"
| "split sep (c # s) =
     (if c = sep then [] # split sep s
      else (case split sep s of [] \<Rightarrow> [[c]] | p # ps \<Rightarrow> (c # p) # ps))"

text \<open>\<open>parts.join(sep)\<close> on an array of strings.\<close>

fun join :: "string \<Rightarrow> string list \<Rightarrow> string" where
  "join sep [] = []"
| "join sep [p] = p"
| "join sep (p # q # ps) = p @ sep @ join sep (q # ps)"

section \<open>PayloadBuilder (scripts/sync-dns.js, buildPayload)\<close>

text \<open>\<open>array.includes(type)\<close> on an array of string literals: only an equal string is found.\<close>

definition type_in :: "jsv \<Rightarrow> string list \<Rightarrow> bool" where
  "type_in t names = (case t of Str s \<Rightarrow> s \<in> set names | _ \<Rightarrow> False)"

text \<open>\<open>r.name.split(".")\<close>: a \<open>TypeError\<close> unless \<open>r.name\<close> is a string.\<close>

definition name_parts :: "jsv \<Rightarrow> sync_error + string list" where
  "name_parts n = (case n of Str s \<Rightarrow> Inr (split CHR ''.'' s) | _ \<Rightarrow> Inl TypeError)"

text \<open>\<open>parts[i]\<close>: \<open>undefined\<close> beyond the end.\<close>

definition part_at :: "string list \<Rightarrow> nat \<Rightarrow> jsv" where
  "part_at ps i = (if i < length ps then Str (ps ! i) else Undefined)"

definition buildPayload :: "jsv \<Rightarrow> sync_error + (string \<times> jsv) list" where
  "buildPayload r =
    (if nullish r then Inl TypeError
     else let type = getp r ''type'' in
       if type = Str ''URL'' then
         Inr [(''type'', Str ''AAAA''), (''name'', getp r ''name''),
              (''content'', Str ''100::''), (''ttl'', Num 1), (''proxied'', Bool True)]
       else
         let payload = [(''type'', type), (''name'', getp r ''name''), (''ttl'', Num 1)];
             payload = (if type_in type [''A'', ''AAAA'', ''CNAME'']
                        then set_prop payload ''proxied''
                               (if nullish (getp r ''proxied'') then Bool False
                                else getp r ''proxied'')
                        else payload);
             payload = (if type_in type [''A'', ''AAAA'', ''CNAME'', ''TXT'', ''URL'', ''NS'']
                        then set_prop payload ''content'' (getp r ''value'')
                        else payload);
             payload = (if type = Str ''MX''
                        then set_prop (set_prop payload ''content'' (getp r ''target''))
                               ''priority'' (getp r ''priority'')
                        else payload)
         in
         (if type = Str ''SRV'' then
            (case name_parts (getp r ''name'') of
               Inl e \<Rightarrow> Inl e
             | Inr ps \<Rightarrow>
                 Inr (set_prop payload ''data''
                   (Obj [(''service'', part_at ps 0), (''proto'', part_at ps 1),
                         (''name'', Str (join ''.'' (drop 2 ps))),
                         (''priority'', getp r ''priority''), (''weight'', getp r ''weight''),
                         (''port'', getp r ''port''), (''target'', getp r ''target'')])))
          else
            let payload = (if type = Str ''CAA''
                           then set_prop payload ''data''
                                  (Obj [(''flags'', getp r ''flags''), (''tag'', getp r ''tag''),
                                        (''value'', getp r ''value'')])
                           else payload);
                payload = (if type = Str ''DS''
                           then set_prop payload ''data''
                                  (Obj [(''key_tag'', getp r ''key_tag''),
                                        (''algorithm'', getp r ''algorithm''),
                                        (''digest_type'', getp r ''digest_type''),
                                        (''digest'', getp r ''digest'')])
                           else payload);
                payload = (if type = Str ''TLSA''
                           then set_prop payload ''data''
                                  (Obj [(''usage'', getp r ''usage''),
                                        (''selector'', getp r ''selector''),
                                        (''matching_type'', getp r ''matching_type''),
                                        (''certificate'', getp r ''certificate'')])
                           else payload)
            in Inr payload))"


section \<open>More JavaScript: conversions, tests on values, regular expressions\<close>

text \<open>\<open>String(n)\<close> for an integer (decimal; the exponent form of huge numbers is not modelled).\<close>

fun string_of_nat :: "nat \<Rightarrow> string" where
  "string_of_nat n =
     (if n < 10 then [''0123456789'' ! n]
      else string_of_nat (n div 10) @ [''0123456789'' ! (n mod 10)])"

declare string_of_nat.simps [simp del]

definition string_of_int :: "int \<Rightarrow> string" where
  "string_of_int i = (if i < 0 then CHR ''-'' # string_of_nat (nat (- i)) else string_of_nat (nat i))"

text \<open>
  \<open>String(v)\<close> and template interpolation: an array is its elements joined by commas, with
  \<open>null\<close> and \<open>undefined\<close> elements as the empty string.
\<close>

fun js_String :: "jsv \<Rightarrow> string" where
  "js_String Undefined = ''undefined''"
| "js_String Null = ''null''"
| "js_String (Bool b) = (if b then ''true'' else ''false'')"
| "js_String (Num n) = string_of_int n"
| "js_String (Str s) = s"
| "js_String (Arr xs) =
     join '','' (map (\<lambda>x. if x = Null \<or> x = Undefined then [] else js_String x) xs)"
| "js_String (Obj kvs) = ''[object Object]''"

text \<open>\<open>toUpperCase\<close> and \<open>toLowerCase\<close> on ASCII letters; every other character is kept.\<close>

definition upper_char :: "char \<Rightarrow> char" where
  "upper_char c =
     (case map_of (zip ''abcdefghijklmnopqrstuvwxyz'' ''ABCDEFGHIJKLMNOPQRSTUVWXYZ'') c of
        Some u \<Rightarrow> u | None \<Rightarrow> c)"

definition lower_char :: "char \<Rightarrow> char" where
  "lower_char c =
     (case map_of (zip ''ABCDEFGHIJKLMNOPQRSTUVWXYZ'' ''abcdefghijklmnopqrstuvwxyz'') c of
        Some l \<Rightarrow> l | None \<Rightarrow> c)"

definition toUpperCase :: "string \<Rightarrow> string" where
  "toUpperCase s = map upper_char s"

definition toLowerCase :: "string \<Rightarrow> string" where
  "toLowerCase s = map lower_char s"

text \<open>\<open>typeof v === "object"\<close> holds of objects, arrays and \<open>null\<close>.\<close>

fun typeof_object :: "jsv \<Rightarrow> bool" where
  "typeof_object (Obj kvs) = True"
| "typeof_object (Arr xs) = True"
| "typeof_object Null = True"
| "typeof_object _ = False"

fun typeof_string :: "jsv \<Rightarrow> bool" where
  "typeof_string (Str s) = True"
| "typeof_string _ = False"

fun typeof_number :: "jsv \<Rightarrow> bool" where
  "typeof_number (Num n) = True"
| "typeof_number _ = False"

fun typeof_boolean :: "jsv \<Rightarrow> bool" where
  "typeof_boolean (Bool b) = True"
| "typeof_boolean _ = False"

text \<open>\<open>v < 0\<close> and \<open>v <= 0\<close>, used only after \<open>typeof v === "number"\<close>.\<close>

fun num_lt0 :: "jsv \<Rightarrow> bool" where
  "num_lt0 (Num n) = (n < 0)"
| "num_lt0 _ = False"

fun num_le0 :: "jsv \<Rightarrow> bool" where
  "num_le0 (Num n) = (n \<le> 0)"
| "num_le0 _ = False"

text \<open>Truthiness: \<open>!v\<close> holds of \<open>undefined\<close>, \<open>null\<close>, \<open>false\<close>, \<open>0\<close> and \<open>""\<close>.\<close>

fun truthy :: "jsv \<Rightarrow> bool" where
  "truthy Undefined = False"
| "truthy Null = False"
| "truthy (Bool b) = b"
| "truthy (Num n) = (n \<noteq> 0)"
| "truthy (Str s) = (s \<noteq> [])"
| "truthy _ = True"

text \<open>
  \<open>a === b\<close> between a value read from one parsed document and a value from another
  document or a literal: primitives are compared by value, two objects or arrays are
  never the same reference.
\<close>

fun strict_eq :: "jsv \<Rightarrow> jsv \<Rightarrow> bool" where
  "strict_eq Undefined Undefined = True"
| "strict_eq Null Null = True"
| "strict_eq (Bool a) (Bool b) = (a = b)"
| "strict_eq (Num a) (Num b) = (a = b)"
| "strict_eq (Str a) (Str b) = (a = b)"
| "strict_eq _ _ = False"

text \<open>\<open>Object.keys(v)\<close> for a value other than \<open>null\<close> and \<open>undefined\<close> (which throw).\<close>

fun Object_keys :: "jsv \<Rightarrow> string list" where
  "Object_keys (Obj kvs) = map fst kvs"
| "Object_keys (Arr xs) = map string_of_nat [0..<length xs]"
| "Object_keys (Str s) = map string_of_nat [0..<length s]"
| "Object_keys _ = []"

text \<open>
  \<open>k in v\<close> for an object or an array (on a primitive it throws); \<open>k\<close> is one of the
  names the validator asks for, none of which an array has.
\<close>

fun has_key :: "jsv \<Rightarrow> string \<Rightarrow> bool" where
  "has_key (Obj kvs) k = (k \<in> fst ` set kvs)"
| "has_key _ k = False"

subsection \<open>Regular expressions\<close>

text \<open>
  The validator's patterns are all of the form \<open>/^...$/\<close> without flags, so \<open>re.test(s)\<close>
  asks whether the whole string is in the language of the pattern. The matcher
  takes derivatives of the pattern by the characters of the string.
\<close>

datatype regex =
    Never
  | Eps
  | Cls string
  | Seq regex regex
  | Alt regex regex
  | Star regex

fun nullable :: "regex \<Rightarrow> bool" where
  "nullable Never = False"
| "nullable Eps = True"
| "nullable (Cls cs) = False"
| "nullable (Seq r s) = (nullable r \<and> nullable s)"
| "nullable (Alt r s) = (nullable r \<or> nullable s)"
| "nullable (Star r) = True"

fun deriv :: "char \<Rightarrow> regex \<Rightarrow> regex" where
  "deriv c Never = Never"
| "deriv c Eps = Never"
| "deriv c (Cls cs) = (if c \<in> set cs then Eps else Never)"
| "deriv c (Seq r s) =
     (if nullable r then Alt (Seq (deriv c r) s) (deriv c s) else Seq (deriv c r) s)"
| "deriv c (Alt r s) = Alt (deriv c r) (deriv c s)"
| "deriv c (Star r) = Seq (deriv c r) (Star r)"

definition test :: "regex \<Rightarrow> string \<Rightarrow> bool" where
  "test r s = nullable (fold deriv s r)"

text \<open>\<open>r?\<close>, \<open>r+\<close>, \<open>r{n}\<close> and \<open>r{1,n}\<close>.\<close>

definition Opt :: "regex \<Rightarrow> regex" where
  "Opt r = Alt r Eps"

definition Plus :: "regex \<Rightarrow> regex" where
  "Plus r = Seq r (Star r)"

fun Times :: "nat \<Rightarrow> regex \<Rightarrow> regex" where
  "Times 0 r = Eps"
| "Times (Suc n) r = Seq r (Times n r)"

fun Upto :: "nat \<Rightarrow> regex \<Rightarrow> regex" where
  "Upto 0 r = Eps"
| "Upto (Suc n) r = Opt (Seq r (Upto n r))"

definition OneTo :: "nat \<Rightarrow> regex \<Rightarrow> regex" where
  "OneTo n r = Seq r (Upto (n - 1) r)"

definition digit :: regex where
  "digit = Cls ''0123456789''"

definition hexdigit :: regex where
  "hexdigit = Cls ''0123456789abcdefABCDEF''"

text \<open>\<open>(25[0-5]|2[0-4]\d|1?\d?\d)\<close>\<close>

definition octet :: regex where
  "octet =
     Alt (Seq (Cls ''2'') (Seq (Cls ''5'') (Cls ''012345'')))
    (Alt (Seq (Cls ''2'') (Seq (Cls ''01234'') digit))
         (Seq (Opt (Cls ''1'')) (Seq (Opt digit) digit)))"

text \<open>\<open>/^(25[0-5]|2[0-4]\d|1?\d?\d)(\.(25[0-5]|2[0-4]\d|1?\d?\d)){3}$/\<close>\<close>

definition IPV4_REGEX :: regex where
  "IPV4_REGEX = Seq octet (Times 3 (Seq (Cls ''.'') octet))"

text \<open>\<open>[0-9a-fA-F]{1,4}:\<close>\<close>

definition hexgroup_colon :: regex where
  "hexgroup_colon = Seq (OneTo 4 hexdigit) (Cls '':'')"

text \<open>
  \<open>/^(([0-9a-fA-F]{1,4}:){7}[0-9a-fA-F]{1,4}|(::)|(([0-9a-fA-F]{1,4}:){1,7}:)|\<close>
  \<open>(:([0-9a-fA-F]{1,4}:){1,7})|(([0-9a-fA-F]{1,4}:){1,6}:[0-9a-fA-F]{1,4}))$/\<close>
\<close>

definition IPV6_REGEX :: regex where
  "IPV6_REGEX =
     Alt (Seq (Times 7 hexgroup_colon) (OneTo 4 hexdigit))
    (Alt (Seq (Cls '':'') (Cls '':''))
    (Alt (Seq (OneTo 7 hexgroup_colon) (Cls '':''))
    (Alt (Seq (Cls '':'') (OneTo 7 hexgroup_colon))
         (Seq (OneTo 6 hexgroup_colon) (Seq (Cls '':'') (OneTo 4 hexdigit))))))"

text \<open>\<open>/^[a-z0-9-]+$/\<close>\<close>

definition subdomain_chars :: string where
  "subdomain_chars = ''abcdefghijklmnopqrstuvwxyz0123456789-''"

definition SUBDOMAIN_REGEX :: regex where
  "SUBDOMAIN_REGEX = Plus (Cls subdomain_chars)"


section \<open>The validator script\<close>

text \<open>
  The scripts see the file system through \<open>fs.existsSync\<close>, \<open>fs.readFileSync\<close> and
  \<open>JSON.parse\<close>. A JSON file is missing, or its text does not parse, or it parses to a
  value; \<open>changes.txt\<close> is read as text.
\<close>

datatype json_file = Missing | Malformed | Parsed jsv

record filesystem =
  changes_txt :: "string option"
  json_files :: "string \<Rightarrow> json_file"

definition ALLOWED_TYPES :: "string list" where
  "ALLOWED_TYPES = [''A'', ''AAAA'', ''CNAME'', ''TXT'', ''URL'', ''MX'', ''SRV'', ''CAA'',
                    ''NS'', ''DS'', ''TLSA'']"

definition RESERVED_JSON_PATH :: string where
  "RESERVED_JSON_PATH = ''./reserved-subdomains.json''"

text \<open>\<open>Object.values(v)\<close>: throws on \<open>null\<close>; the characters of a string; nothing for a
  number or a boolean.\<close>

fun Object_values :: "jsv \<Rightarrow> jsv list option" where
  "Object_values Null = None"
| "Object_values Undefined = None"
| "Object_values (Obj kvs) = Some (map snd kvs)"
| "Object_values (Arr xs) = Some xs"
| "Object_values (Str s) = Some (map (\<lambda>c. Str [c]) s)"
| "Object_values _ = Some []"

fun isArray :: "jsv \<Rightarrow> bool" where
  "isArray (Arr xs) = True"
| "isArray _ = False"

text \<open>\<open>arrays.flat()\<close>, one level deep.\<close>

fun flat :: "jsv list \<Rightarrow> jsv list" where
  "flat [] = []"
| "flat (Arr xs # vs) = xs @ flat vs"
| "flat (v # vs) = v # flat vs"

text \<open>
  The module-level \<open>try\<close>/\<open>catch\<close> that fills \<open>RESERVED_SUBDOMAINS\<close>. The result is the
  list and whether the warning of the \<open>catch\<close> block was printed.
\<close>

definition load_reserved :: "json_file \<Rightarrow> jsv list \<times> bool" where
  "load_reserved f =
     (case f of
        Missing \<Rightarrow> ([], True)
      | Malformed \<Rightarrow> ([], True)
      | Parsed reservedData \<Rightarrow>
          (case Object_values reservedData of
             None \<Rightarrow> ([], True)
           | Some vals \<Rightarrow> (flat (filter isArray vals), False)))"

definition REQUIRED_TOP_KEYS :: "string list" where
  "REQUIRED_TOP_KEYS = [''user'', ''subdomain'', ''records'']"

definition ALLOWED_TOP_KEYS :: "string list" where
  "ALLOWED_TOP_KEYS = [''user'', ''description'', ''subdomain'', ''records'']"

definition REQUIRED_USER_KEYS :: "string list" where
  "REQUIRED_USER_KEYS = [''username'']"

definition ALLOWED_RECORD_KEYS :: "string list" where
  "ALLOWED_RECORD_KEYS = [''type'', ''name'', ''value'', ''proxied'', ''priority'', ''target'',
     ''weight'', ''port'', ''flags'', ''tag'', ''key_tag'', ''algorithm'', ''digest_type'',
     ''digest'', ''usage'', ''selector'', ''matching_type'', ''certificate'']"

definition MAX_RECORDS :: nat where
  "MAX_RECORDS = 0"

text \<open>
  One constructor for each call of \<open>fail\<close>, in the order of the source, with the values its
  message interpolates.
\<close>

datatype reason =
    InvalidJSON
  | ExtraTopLevelKey string
  | MissingRequiredKey string
  | UserMustBeObject
  | UserKeyRequired string
  | InvalidSubdomainFormat
  | ReservedSubdomain string
  | FilenameMustMatch string
  | RecordsMustBeArray
  | AtLeastOneRecord
  | MaximumRecords nat
  | RecordMustBeObject
  | ProxiedMustBeBoolean
  | ProxiedOnlyForAddress
  | MustBeOnSubdomain string
  | InvalidRecordKey string
  | UnsupportedRecordType jsv
  | NameMustBeString
  | WildcardNotAllowed
  | OutsideAssignedSubdomain
  | RequiresStringValue string
  | InvalidIPv4
  | InvalidIPv6
  | MXRequiresTarget
  | MXRequiresPriority
  | SRVRequiresPriority
  | SRVRequiresWeight
  | SRVRequiresPort
  | SRVRequiresTarget
  | CAARequiresFlags
  | CAARequiresTag
  | DSRequiresKeyTag
  | DSRequiresAlgorithm
  | DSRequiresDigestType
  | DSRequiresDigest
  | TLSARequiresUsage
  | TLSARequiresSelector
  | TLSARequiresMatchingType
  | TLSARequiresCertificate
  | UnreachableRecordType string
  | DSWithoutNS

text \<open>
  \<open>fail\<close> prints the message and exits with status 1; an exception nobody catches (a
  \<open>TypeError\<close>, or \<open>changes.txt\<close> being unreadable) ends the process as well.
\<close>

datatype failure = Fail string reason | Uncaught

text \<open>The files to validate: the lines of \<open>changes.txt\<close> that pass the filter.\<close>

definition is_domain_file :: "string \<Rightarrow> bool" where
  "is_domain_file f = (startsWith f ''domains/'' \<and> endsWith f ''.json'')"

definition files :: "string \<Rightarrow> string list" where
  "files changes = filter is_domain_file (split CHR 0x0A changes)"

text \<open>
  The \<open>if\<close>/\<open>else if\<close> chain over the normalised type, ending in the fallback. The flags
  \<open>hasNS\<close> and \<open>hasDS\<close> are passed in and returned.
\<close>

definition check_type ::
  "string \<Rightarrow> string \<Rightarrow> jsv \<Rightarrow> bool \<times> bool \<Rightarrow> failure + bool \<times> bool" where
  "check_type file type r flags =
    (if type = ''A'' then
       (if \<not> typeof_string (getp r ''value'') then Inl (Fail file (RequiresStringValue ''A''))
        else if \<not> test IPV4_REGEX (js_String (getp r ''value'')) then Inl (Fail file InvalidIPv4)
        else Inr flags)
     else if type = ''AAAA'' then
       (if \<not> typeof_string (getp r ''value'') then Inl (Fail file (RequiresStringValue ''AAAA''))
        else if \<not> test IPV6_REGEX (js_String (getp r ''value'')) then Inl (Fail file InvalidIPv6)
        else Inr flags)
     else if type = ''CNAME'' then
       (if \<not> typeof_string (getp r ''value'') then Inl (Fail file (RequiresStringValue ''CNAME''))
        else Inr flags)
     else if type = ''TXT'' then
       (if \<not> typeof_string (getp r ''value'') then Inl (Fail file (RequiresStringValue ''TXT''))
        else Inr flags)
     else if type = ''URL'' then
       (if \<not> typeof_string (getp r ''value'') then Inl (Fail file (RequiresStringValue ''URL''))
        else Inr flags)
     else if type = ''MX'' then
       (if \<not> typeof_string (getp r ''target'') then Inl (Fail file MXRequiresTarget)
        else if \<not> typeof_number (getp r ''priority'') \<or> num_lt0 (getp r ''priority'')
          then Inl (Fail file MXRequiresPriority)
        else Inr flags)
     else if type = ''SRV'' then
       (if \<not> typeof_number (getp r ''priority'') \<or> num_lt0 (getp r ''priority'')
          then Inl (Fail file SRVRequiresPriority)
        else if \<not> typeof_number (getp r ''weight'') \<or> num_lt0 (getp r ''weight'')
          then Inl (Fail file SRVRequiresWeight)
        else if \<not> typeof_number (getp r ''port'') \<or> num_le0 (getp r ''port'')
          then Inl (Fail file SRVRequiresPort)
        else if \<not> typeof_string (getp r ''target'') then Inl (Fail file SRVRequiresTarget)
        else Inr flags)
     else if type = ''CAA'' then
       (if \<not> typeof_number (getp r ''flags'') then Inl (Fail file CAARequiresFlags)
        else if \<not> typeof_string (getp r ''tag'') then Inl (Fail file CAARequiresTag)
        else if \<not> typeof_string (getp r ''value'') then Inl (Fail file (RequiresStringValue ''CAA''))
        else Inr flags)
     else if type = ''NS'' then
       (if \<not> typeof_string (getp r ''value'') then Inl (Fail file (RequiresStringValue ''NS''))
        else Inr (True, snd flags))
     else if type = ''DS'' then
       (if \<not> typeof_number (getp r ''key_tag'') then Inl (Fail file DSRequiresKeyTag)
        else if \<not> typeof_number (getp r ''algorithm'') then Inl (Fail file DSRequiresAlgorithm)
        else if \<not> typeof_number (getp r ''digest_type'') then Inl (Fail file DSRequiresDigestType)
        else if \<not> typeof_string (getp r ''digest'') then Inl (Fail file DSRequiresDigest)
        else Inr (fst flags, True))
     else if type = ''TLSA'' then
       (if \<not> typeof_number (getp r ''usage'') then Inl (Fail file TLSARequiresUsage)
        else if \<not> typeof_number (getp r ''selector'') then Inl (Fail file TLSARequiresSelector)
        else if \<not> typeof_number (getp r ''matching_type'')
          then Inl (Fail file TLSARequiresMatchingType)
        else if \<not> typeof_string (getp r ''certificate'')
          then Inl (Fail file TLSARequiresCertificate)
        else Inr flags)
     else Inl (Fail file (UnreachableRecordType type)))"

text \<open>
  The body of the loop over \<open>data.records\<close>. \<open>subdomain\<close> is \<open>data.subdomain\<close>, a string by
  the time the loop runs.
\<close>

definition validate_record ::
  "string \<Rightarrow> string \<Rightarrow> bool \<times> bool \<Rightarrow> jsv \<Rightarrow> failure + bool \<times> bool" where
  "validate_record file subdomain flags r =
    (if \<not> typeof_object r \<or> r = Null then Inl (Fail file RecordMustBeObject)
     else let type = toUpperCase (js_String (getp r ''type'')) in
       if has_key r ''proxied'' \<and> \<not> typeof_boolean (getp r ''proxied'')
         then Inl (Fail file ProxiedMustBeBoolean)
       else if has_key r ''proxied'' \<and> type \<notin> set [''A'', ''AAAA'', ''CNAME'']
         then Inl (Fail file ProxiedOnlyForAddress)
       else if (type = ''NS'' \<or> type = ''DS'') \<and> \<not> strict_eq (getp r ''name'') (Str subdomain)
         then Inl (Fail file (MustBeOnSubdomain type))
       else case find (\<lambda>key. key \<notin> set ALLOWED_RECORD_KEYS) (Object_keys r) of
         Some key \<Rightarrow> Inl (Fail file (InvalidRecordKey key))
       | None \<Rightarrow>
          if type \<notin> set ALLOWED_TYPES then Inl (Fail file (UnsupportedRecordType (getp r ''type'')))
          else if \<not> typeof_string (getp r ''name'') then Inl (Fail file NameMustBeString)
          else if includes_str (js_String (getp r ''name'')) ''*''
            then Inl (Fail file WildcardNotAllowed)
          else if \<not> strict_eq (getp r ''name'') (Str subdomain)
                  \<and> \<not> endsWith (js_String (getp r ''name'')) (''.'' @ subdomain)
            then Inl (Fail file OutsideAssignedSubdomain)
          else check_type file type r flags)"

fun validate_records ::
  "string \<Rightarrow> string \<Rightarrow> bool \<times> bool \<Rightarrow> jsv list \<Rightarrow> failure + bool \<times> bool" where
  "validate_records file subdomain flags [] = Inr flags"
| "validate_records file subdomain flags (r # rs) =
     (case validate_record file subdomain flags r of
        Inl e \<Rightarrow> Inl e
      | Inr flags' \<Rightarrow> validate_records file subdomain flags' rs)"

text \<open>
  The body of the loop over the files, for a file that exists, in three parts: the checks
  from \<open>JSON.parse\<close> onwards that come before the reserved-name check, the reserved-name
  check, and the checks after it up to the DS-requires-NS check. \<open>Object.keys(null)\<close>,
  \<open>key in data\<close> on a primitive and \<open>data.subdomain.toLowerCase()\<close> on anything but a
  string throw a \<open>TypeError\<close>; the first part returns \<open>data.subdomain\<close>, then a string.
\<close>

definition checks_before_reserved :: "string \<Rightarrow> jsv \<Rightarrow> failure + string" where
  "checks_before_reserved file data =
     (if nullish data then Inl Uncaught
      else case find (\<lambda>key. key \<notin> set ALLOWED_TOP_KEYS) (Object_keys data) of
        Some key \<Rightarrow> Inl (Fail file (ExtraTopLevelKey key))
      | None \<Rightarrow>
         if \<not> typeof_object data then Inl Uncaught
         else case find (\<lambda>key. \<not> has_key data key) REQUIRED_TOP_KEYS of
           Some key \<Rightarrow> Inl (Fail file (MissingRequiredKey key))
         | None \<Rightarrow>
            if \<not> typeof_object (getp data ''user'') \<or> getp data ''user'' = Null
              then Inl (Fail file UserMustBeObject)
            else case find (\<lambda>key. \<not> truthy (getp (getp data ''user'') key)) REQUIRED_USER_KEYS of
              Some key \<Rightarrow> Inl (Fail file (UserKeyRequired key))
            | None \<Rightarrow>
               if \<not> test SUBDOMAIN_REGEX (js_String (getp data ''subdomain''))
                 then Inl (Fail file InvalidSubdomainFormat)
               else (case getp data ''subdomain'' of
                       Str subdomain \<Rightarrow> Inr subdomain
                     | _ \<Rightarrow> Inl Uncaught))"

definition checks_after_reserved :: "string \<Rightarrow> string \<Rightarrow> jsv \<Rightarrow> failure + unit" where
  "checks_after_reserved file subdomain data =
     (if file \<noteq> ''domains/'' @ subdomain @ ''.json''
        then Inl (Fail file (FilenameMustMatch (''domains/'' @ subdomain @ ''.json'')))
      else (case getp data ''records'' of
         Arr records \<Rightarrow>
           if length records = 0 then Inl (Fail file AtLeastOneRecord)
           else if MAX_RECORDS \<noteq> 0 \<and> length records > MAX_RECORDS
             then Inl (Fail file (MaximumRecords MAX_RECORDS))
           else (case validate_records file subdomain (False, False) records of
              Inl e \<Rightarrow> Inl e
            | Inr (hasNS, hasDS) \<Rightarrow>
                if hasDS \<and> \<not> hasNS then Inl (Fail file DSWithoutNS)
                else Inr ())
       | _ \<Rightarrow> Inl (Fail file RecordsMustBeArray)))"

definition validate_file :: "jsv list \<Rightarrow> string \<Rightarrow> json_file \<Rightarrow> failure + unit" where
  "validate_file RESERVED_SUBDOMAINS file content =
    (case content of
       Missing \<Rightarrow> Inl (Fail file InvalidJSON)
     | Malformed \<Rightarrow> Inl (Fail file InvalidJSON)
     | Parsed data \<Rightarrow>
        (case checks_before_reserved file data of
           Inl e \<Rightarrow> Inl e
         | Inr subdomain \<Rightarrow>
             if Str (toLowerCase subdomain) \<in> set RESERVED_SUBDOMAINS
               then Inl (Fail file (ReservedSubdomain subdomain))
             else checks_after_reserved file subdomain data))"

text \<open>The loop over the files: a file that does not exist is skipped.\<close>

fun validate_files :: "jsv list \<Rightarrow> (string \<Rightarrow> json_file) \<Rightarrow> string list \<Rightarrow> failure + unit" where
  "validate_files RESERVED_SUBDOMAINS fs [] = Inr ()"
| "validate_files RESERVED_SUBDOMAINS fs (file # rest) =
     (if fs file = Missing then validate_files RESERVED_SUBDOMAINS fs rest
      else case validate_file RESERVED_SUBDOMAINS file (fs file) of
        Inl e \<Rightarrow> Inl e
      | Inr u \<Rightarrow> validate_files RESERVED_SUBDOMAINS fs rest)"

text \<open>
  The whole script: the outcome of the run and whether the reserved-names warning was
  printed. With no file to validate the script exits with status 0 before the loop.
\<close>

datatype verdict = NoChanges | Passed | Stopped failure

definition validate_changes :: "jsv list \<Rightarrow> filesystem \<Rightarrow> verdict" where
  "validate_changes RESERVED_SUBDOMAINS fs =
     (case changes_txt fs of
        None \<Rightarrow> Stopped Uncaught
      | Some changes \<Rightarrow>
          if length (files changes) = 0 then NoChanges
          else (case validate_files RESERVED_SUBDOMAINS (json_files fs) (files changes) of
                  Inl e \<Rightarrow> Stopped e
                | Inr u \<Rightarrow> Passed))"

definition validator :: "filesystem \<Rightarrow> verdict \<times> bool" where
  "validator fs =
     (let (RESERVED_SUBDOMAINS, warned) = load_reserved (json_files fs RESERVED_JSON_PATH)
      in (validate_changes RESERVED_SUBDOMAINS fs, warned))"

section \<open>The reconciler script (scripts/sync-dns.js)\<close>

subsection \<open>The provider\<close>

text \<open>
  The provider's resources, typed as the script reads them: a DNS record has an \<open>id\<close>, a
  \<open>type\<close> and a \<open>name\<close>, and further properties (\<open>content\<close>, \<open>data\<close>, \<open>proxied\<close>,
  \<open>ttl\<close>, ...); a ruleset has an \<open>id\<close>, a \<open>phase\<close> and a \<open>kind\<close>; a rule has an
  \<open>expression\<close> beside the properties the script writes and those the provider adds.
\<close>

record remote_record =
  rid :: string
  rtype :: string
  rname :: string
  rprops :: "(string \<times> jsv) list"

record ruleset =
  sid :: string
  phase :: string
  kind :: string

record rule =
  description :: string
  expression :: string
  action :: string
  action_parameters :: jsv
  extras :: "(string \<times> jsv) list"

type_synonym payload = "(string \<times> jsv) list"

text \<open>The calls the script makes through \<open>cf\<close>, each under \<open>/zones/${CF_ZONE_ID}\<close>.\<close>

datatype request =
    GetRulesets
  | PostRuleset
  | GetRuleset string
  | PutRuleset string "rule list"
  | GetRecords nat
  | PutRecord string payload
  | PostRecord payload
  | DeleteRecord string

fun path_of :: "request \<Rightarrow> string" where
  "path_of GetRulesets = ''/rulesets''"
| "path_of PostRuleset = ''/rulesets''"
| "path_of (GetRuleset i) = ''/rulesets/'' @ i"
| "path_of (PutRuleset i rules) = ''/rulesets/'' @ i"
| "path_of (GetRecords page) = ''/dns_records?per_page=500&page='' @ string_of_nat page"
| "path_of (PutRecord i p) = ''/dns_records/'' @ i"
| "path_of (PostRecord p) = ''/dns_records''"
| "path_of (DeleteRecord i) = ''/dns_records/'' @ i"

text \<open>
  A provider answers each call from its state and moves to a new state; \<open>None\<close> is an
  answer with \<open>success\<close> false. The answer to reading one ruleset is its \<open>rules\<close>
  property, which may be absent.
\<close>

record 's provider =
  get_rulesets :: "'s \<Rightarrow> ruleset list option \<times> 's"
  post_ruleset :: "'s \<Rightarrow> ruleset option \<times> 's"
  get_ruleset :: "string \<Rightarrow> 's \<Rightarrow> rule list option option \<times> 's"
  put_ruleset :: "string \<Rightarrow> rule list \<Rightarrow> 's \<Rightarrow> unit option \<times> 's"
  get_records :: "nat \<Rightarrow> 's \<Rightarrow> remote_record list option \<times> 's"
  put_record :: "string \<Rightarrow> payload \<Rightarrow> 's \<Rightarrow> unit option \<times> 's"
  post_record :: "payload \<Rightarrow> 's \<Rightarrow> unit option \<times> 's"
  delete_record :: "string \<Rightarrow> 's \<Rightarrow> unit option \<times> 's"

text \<open>
  The script runs against the provider's state and the list of the calls issued so far.
  \<open>cf\<close> issues one call: it is logged, and an unsuccessful answer is thrown.
\<close>

type_synonym 's world = "'s \<times> request list"

definition cf ::
  "request \<Rightarrow> ('s \<Rightarrow> 'a option \<times> 's) \<Rightarrow> 's world \<Rightarrow> (sync_error + 'a) \<times> 's world" where
  "cf req answer w =
     (case answer (fst w) of
        (None, s') \<Rightarrow> (Inl (ApiFailed (path_of req)), (s', snd w @ [req]))
      | (Some result, s') \<Rightarrow> (Inr result, (s', snd w @ [req])))"

subsection \<open>syncRedirects\<close>

definition quoted :: "string \<Rightarrow> string" where
  "quoted hostname = [CHR 0x22] @ hostname @ [CHR 0x22]"

definition hostname_of :: "jsv \<Rightarrow> jsv \<Rightarrow> string" where
  "hostname_of sub domain = js_String sub @ ''.'' @ js_String domain"

definition is_redirect_ruleset :: "ruleset \<Rightarrow> bool" where
  "is_redirect_ruleset s = (phase s = ''http_request_dynamic_redirect'' \<and> kind s = ''zone'')"

definition otherRules :: "string \<Rightarrow> rule list \<Rightarrow> rule list" where
  "otherRules hostname currentRules =
     filter (\<lambda>r. \<not> includes_str (expression r) (quoted hostname)) currentRules"

definition new_rule :: "string \<Rightarrow> jsv \<Rightarrow> rule" where
  "new_rule hostname r =
     \<lparr> description = ''Redirect: '' @ hostname,
       expression = ''(http.host eq '' @ quoted hostname @ '')'',
       action = ''redirect'',
       action_parameters =
         Obj [(''from_value'',
               Obj [(''target_url'', Obj [(''value'', getp r ''value'')]),
                    (''status_code'', Num 301),
                    (''preserve_query_string'', Bool True)])],
       extras = [] \<rparr>"

definition newRules :: "string \<Rightarrow> jsv list \<Rightarrow> rule list" where
  "newRules hostname urlRecords = map (new_rule hostname) urlRecords"

definition syncRedirects ::
  "'s provider \<Rightarrow> jsv \<Rightarrow> jsv list \<Rightarrow> jsv \<Rightarrow> 's world \<Rightarrow> (sync_error + unit) \<times> 's world" where
  "syncRedirects P sub urlRecords domain w =
    (let hostname = hostname_of sub domain in
     case cf GetRulesets (get_rulesets P) w of
       (Inl e, w1) \<Rightarrow> (Inl e, w1)
     | (Inr sets, w1) \<Rightarrow>
        (case (case find is_redirect_ruleset sets of
                 Some ruleset \<Rightarrow> (Inr ruleset, w1)
               | None \<Rightarrow> cf PostRuleset (post_ruleset P) w1) of
           (Inl e, w2) \<Rightarrow> (Inl e, w2)
         | (Inr ruleset, w2) \<Rightarrow>
            (case cf (GetRuleset (sid ruleset)) (get_ruleset P (sid ruleset)) w2 of
               (Inl e, w3) \<Rightarrow> (Inl e, w3)
             | (Inr rules, w3) \<Rightarrow>
                let currentRules = (case rules of Some rs \<Rightarrow> rs | None \<Rightarrow> []);
                    others = otherRules hostname currentRules;
                    new = newRules hostname urlRecords
                in if length others + length new \<noteq> length currentRules \<or> length new > 0
                   then (case cf (PutRuleset (sid ruleset) (others @ new))
                               (put_ruleset P (sid ruleset) (others @ new)) w3 of
                           (Inl e, w4) \<Rightarrow> (Inl e, w4)
                         | (Inr u, w4) \<Rightarrow> (Inr (), w4))
                   else (Inr (), w3))))"

subsection \<open>listAllRecords and recordsForSubdomain\<close>

text \<open>
  The \<open>while (true)\<close> loop asks for page after page until one has fewer than 500 records;
  against a provider that always answers with full pages it never returns.
\<close>

partial_function (option) listAllRecords_from ::
  "'s provider \<Rightarrow> nat \<Rightarrow> remote_record list \<Rightarrow> 's world \<Rightarrow>
     ((sync_error + remote_record list) \<times> 's world) option" where
  "listAllRecords_from P page records w =
     (case cf (GetRecords page) (get_records P page) w of
        (Inl e, w') \<Rightarrow> Some (Inl e, w')
      | (Inr batch, w') \<Rightarrow>
          if length batch < 500 then Some (Inr (records @ batch), w')
          else listAllRecords_from P (page + 1) (records @ batch) w')"

declare listAllRecords_from.simps [code]

definition listAllRecords ::
  "'s provider \<Rightarrow> 's world \<Rightarrow> ((sync_error + remote_record list) \<times> 's world) option" where
  "listAllRecords P w = listAllRecords_from P 1 [] w"

definition recordsForSubdomain :: "jsv \<Rightarrow> remote_record list \<Rightarrow> jsv \<Rightarrow> remote_record list" where
  "recordsForSubdomain sub all domain =
     (let suffix = hostname_of sub domain in
      filter (\<lambda>r. rname r = suffix \<or> endsWith (rname r) (''.'' @ suffix)) all)"

subsection \<open>sameRecord\<close>

text \<open>\<open>JSON.stringify\<close>: \<open>None\<close> is \<open>undefined\<close>.\<close>

definition hex_digit :: "nat \<Rightarrow> char" where
  "hex_digit n = ''0123456789abcdef'' ! (n mod 16)"

definition escape_char :: "char \<Rightarrow> string" where
  "escape_char c =
     (if c = CHR 0x22 then [CHR 0x5C, CHR 0x22]
      else if c = CHR 0x5C then [CHR 0x5C, CHR 0x5C]
      else if c = CHR 0x08 then [CHR 0x5C, CHR ''b'']
      else if c = CHR 0x0C then [CHR 0x5C, CHR ''f'']
      else if c = CHR 0x0A then [CHR 0x5C, CHR ''n'']
      else if c = CHR 0x0D then [CHR 0x5C, CHR ''r'']
      else if c = CHR 0x09 then [CHR 0x5C, CHR ''t'']
      else if (of_char c :: nat) < 32
        then [CHR 0x5C, CHR ''u'', CHR ''0'', CHR ''0'',
              hex_digit (of_char c div 16), hex_digit (of_char c)]
      else [c])"

definition quote :: "string \<Rightarrow> string" where
  "quote s = [CHR 0x22] @ concat (map escape_char s) @ [CHR 0x22]"

fun stringify :: "jsv \<Rightarrow> string option"
  and stringify_elems :: "jsv list \<Rightarrow> string list"
  and stringify_props :: "(string \<times> jsv) list \<Rightarrow> string list" where
  "stringify Undefined = None"
| "stringify Null = Some ''null''"
| "stringify (Bool b) = Some (if b then ''true'' else ''false'')"
| "stringify (Num n) = Some (string_of_int n)"
| "stringify (Str s) = Some (quote s)"
| "stringify (Arr xs) = Some (''['' @ join '','' (stringify_elems xs) @ '']'')"
| "stringify (Obj kvs) = Some (''{'' @ join '','' (stringify_props kvs) @ ''}'')"
| "stringify_elems [] = []"
| "stringify_elems (x # xs) =
     (case stringify x of None \<Rightarrow> ''null'' | Some t \<Rightarrow> t) # stringify_elems xs"
| "stringify_props [] = []"
| "stringify_props ((k, v) # kvs) =
     (case stringify v of
        None \<Rightarrow> stringify_props kvs
      | Some t \<Rightarrow> (quote k @ '':'' @ t) # stringify_props kvs)"

text \<open>\<open>existing[key]\<close> on a record of the provider.\<close>

definition remote_get :: "remote_record \<Rightarrow> string \<Rightarrow> jsv" where
  "remote_get e key =
     (if key = ''id'' then Str (rid e)
      else if key = ''type'' then Str (rtype e)
      else if key = ''name'' then Str (rname e)
      else (case map_of (rprops e) key of Some v \<Rightarrow> v | None \<Rightarrow> Undefined))"

text \<open>\<open>payload[key]\<close>.\<close>

definition payload_get :: "payload \<Rightarrow> string \<Rightarrow> jsv" where
  "payload_get payload key = (case map_of payload key of Some v \<Rightarrow> v | None \<Rightarrow> Undefined)"

definition sameRecord :: "remote_record \<Rightarrow> payload \<Rightarrow> bool" where
  "sameRecord existing payload =
     list_all (\<lambda>key.
        if key = ''data''
        then stringify (remote_get existing ''data'') = stringify (payload_get payload ''data'')
        else strict_eq (remote_get existing key) (payload_get payload key))
       (map fst payload)"


subsection \<open>applyFile\<close>

text \<open>\<open>existing.find(e => e.type === payload.type && e.name === payload.name)\<close>\<close>

definition same_key :: "remote_record \<Rightarrow> payload \<Rightarrow> bool" where
  "same_key e payload =
     (strict_eq (Str (rtype e)) (payload_get payload ''type'')
      \<and> strict_eq (Str (rname e)) (payload_get payload ''name''))"

definition find_match :: "remote_record list \<Rightarrow> payload \<Rightarrow> remote_record option" where
  "find_match existing payload = find (\<lambda>e. same_key e payload) existing"

text \<open>
  The loop over \<open>data.records\<close>: the set \<open>keep\<close> of matched ids is passed along and
  returned.
\<close>

fun apply_records ::
  "'s provider \<Rightarrow> remote_record list \<Rightarrow> jsv list \<Rightarrow> string set \<Rightarrow> 's world \<Rightarrow>
     (sync_error + string set) \<times> 's world" where
  "apply_records P existing [] keep w = (Inr keep, w)"
| "apply_records P existing (r # rs) keep w =
     (case buildPayload r of
        Inl e \<Rightarrow> (Inl e, w)
      | Inr payload \<Rightarrow>
         (case find_match existing payload of
            Some match \<Rightarrow>
              if \<not> sameRecord match payload
              then (case cf (PutRecord (rid match) payload) (put_record P (rid match) payload) w of
                      (Inl e, w') \<Rightarrow> (Inl e, w')
                    | (Inr u, w') \<Rightarrow> apply_records P existing rs (insert (rid match) keep) w')
              else apply_records P existing rs (insert (rid match) keep) w
          | None \<Rightarrow>
              (case cf (PostRecord payload) (post_record P payload) w of
                 (Inl e, w') \<Rightarrow> (Inl e, w')
               | (Inr u, w') \<Rightarrow> apply_records P existing rs keep w')))"

text \<open>The cleanup loop: every record of \<open>existing\<close> whose id is not in \<open>keep\<close> is deleted.\<close>

fun cleanup ::
  "'s provider \<Rightarrow> string set \<Rightarrow> remote_record list \<Rightarrow> 's world \<Rightarrow> (sync_error + unit) \<times> 's world" where
  "cleanup P keep [] w = (Inr (), w)"
| "cleanup P keep (r # rs) w =
     (if rid r \<notin> keep
      then (case cf (DeleteRecord (rid r)) (delete_record P (rid r)) w of
              (Inl e, w') \<Rightarrow> (Inl e, w')
            | (Inr u, w') \<Rightarrow> cleanup P keep rs w')
      else cleanup P keep rs w)"

text \<open>
  \<open>for (const r of data.records)\<close> iterates an array, or the characters of a string;
  anything else is not iterable. \<open>data.records.filter\<close> exists on arrays only.
\<close>

fun iterate :: "jsv \<Rightarrow> jsv list option" where
  "iterate (Arr xs) = Some xs"
| "iterate (Str s) = Some (map (\<lambda>c. Str [c]) s)"
| "iterate _ = None"

definition applyFile ::
  "'s provider \<Rightarrow> (string \<Rightarrow> json_file) \<Rightarrow> string \<Rightarrow> jsv \<Rightarrow> 's world \<Rightarrow>
     ((sync_error + unit) \<times> 's world) option" where
  "applyFile P fs file domain w =
    (case fs file of
       Missing \<Rightarrow> Some (Inl (ReadError file), w)
     | Malformed \<Rightarrow> Some (Inl (ReadError file), w)
     | Parsed data \<Rightarrow>
        if nullish data then Some (Inl TypeError, w)
        else let sub = getp data ''subdomain'' in
          (case listAllRecords P w of
             None \<Rightarrow> None
           | Some (Inl e, w1) \<Rightarrow> Some (Inl e, w1)
           | Some (Inr all, w1) \<Rightarrow>
              let existing = recordsForSubdomain sub all domain in
              (case iterate (getp data ''records'') of
                 None \<Rightarrow> Some (Inl TypeError, w1)
               | Some records \<Rightarrow>
                  (case apply_records P existing records {} w1 of
                     (Inl e, w2) \<Rightarrow> Some (Inl e, w2)
                   | (Inr keep, w2) \<Rightarrow>
                      if \<not> isArray (getp data ''records'') then Some (Inl TypeError, w2)
                      else let urlRecords = filter (\<lambda>r. getp r ''type'' = Str ''URL'') records in
                        (case (if length urlRecords > 0
                               then syncRedirects P sub urlRecords domain w2
                               else (Inr (), w2)) of
                           (Inl e, w3) \<Rightarrow> Some (Inl e, w3)
                         | (Inr u, w3) \<Rightarrow> Some (cleanup P keep existing w3))))))"

subsection \<open>The main loop\<close>

text \<open>\<open>\s\<close>, on the characters of the model: tab, line feed, vertical tab, form feed,
  carriage return, space and the no-break space.\<close>

definition is_space :: "char \<Rightarrow> bool" where
  "is_space c = (c \<in> set [CHR 0x09, CHR 0x0A, CHR 0x0B, CHR 0x0C, CHR 0x0D, CHR 0x20, CHR 0xA0])"

text \<open>\<open>line.split(/\s+/)\<close>: a run of white space separates two pieces, also at either end.\<close>

fun split_spaces :: "string \<Rightarrow> string list" where
  "split_spaces [] = [[]]"
| "split_spaces [c] = (if is_space c then [[], []] else [[c]])"
| "split_spaces (c # d # s) =
     (if is_space c then (if is_space d then split_spaces (d # s) else [] # split_spaces (d # s))
      else (case split_spaces (d # s) of [] \<Rightarrow> [[c]] | p # ps \<Rightarrow> (c # p) # ps))"

text \<open>\<open>s.replace(pat, rep)\<close> with a string pattern: the first occurrence only.\<close>

fun replace :: "string \<Rightarrow> string \<Rightarrow> string \<Rightarrow> string" where
  "replace [] pat rep = (if pat = [] then rep else [])"
| "replace (c # s) pat rep =
     (if startsWith (c # s) pat then rep @ drop (length pat) (c # s)
      else c # replace s pat rep)"

text \<open>
  The change feed of the reconciler: the non-empty lines of \<open>changes.txt\<close>, each split
  into \<open>status\<close> and \<open>file\<close>, kept when \<open>file\<close> is a definition file. A line with a single
  piece has no \<open>file\<close>, and \<open>c.file.startsWith\<close> throws.
\<close>

record change =
  c_status :: string
  c_file :: string

definition parse_line :: "string \<Rightarrow> change option" where
  "parse_line line =
     (case split_spaces line of
        st # f # rest \<Rightarrow> Some \<lparr> c_status = st, c_file = f \<rparr>
      | _ \<Rightarrow> None)"

definition changes :: "string \<Rightarrow> sync_error + change list" where
  "changes text =
     (let parsed = map parse_line (filter (\<lambda>l. l \<noteq> []) (split CHR 0x0A text)) in
      if None \<in> set parsed then Inl TypeError
      else Inr (filter (\<lambda>c. is_domain_file (c_file c)) (map the parsed)))"

fun delete_all ::
  "'s provider \<Rightarrow> remote_record list \<Rightarrow> 's world \<Rightarrow> (sync_error + unit) \<times> 's world" where
  "delete_all P [] w = (Inr (), w)"
| "delete_all P (r # rs) w =
     (case cf (DeleteRecord (rid r)) (delete_record P (rid r)) w of
        (Inl e, w') \<Rightarrow> (Inl e, w')
      | (Inr u, w') \<Rightarrow> delete_all P rs w')"

definition remove_subdomain ::
  "'s provider \<Rightarrow> string \<Rightarrow> jsv \<Rightarrow> 's world \<Rightarrow> ((sync_error + unit) \<times> 's world) option" where
  "remove_subdomain P sub domain w =
     (case listAllRecords P w of
        None \<Rightarrow> None
      | Some (Inl e, w1) \<Rightarrow> Some (Inl e, w1)
      | Some (Inr all, w1) \<Rightarrow>
          (case delete_all P (recordsForSubdomain (Str sub) all domain) w1 of
             (Inl e, w2) \<Rightarrow> Some (Inl e, w2)
           | (Inr u, w2) \<Rightarrow> Some (syncRedirects P (Str sub) [] domain w2)))"

fun process_changes ::
  "'s provider \<Rightarrow> (string \<Rightarrow> json_file) \<Rightarrow> jsv \<Rightarrow> change list \<Rightarrow> 's world \<Rightarrow>
     ((sync_error + unit) \<times> 's world) option" where
  "process_changes P fs domain [] w = Some (Inr (), w)"
| "process_changes P fs domain (c # cs) w =
     (let sub = replace (replace (c_file c) ''domains/'' []) ''.json'' [] in
      case (if c_status c = ''D'' then remove_subdomain P sub domain w
            else applyFile P fs (c_file c) domain w) of
        None \<Rightarrow> None
      | Some (Inl e, w') \<Rightarrow> Some (Inl e, w')
      | Some (Inr u, w') \<Rightarrow> process_changes P fs domain cs w')"

text \<open>The script: \<open>CF_DOMAIN\<close> is a string, or \<open>undefined\<close> when the variable is not set.\<close>

definition main ::
  "'s provider \<Rightarrow> filesystem \<Rightarrow> jsv \<Rightarrow> 's world \<Rightarrow> ((sync_error + unit) \<times> 's world) option" where
  "main P fs CF_DOMAIN w =
     (case changes_txt fs of
        None \<Rightarrow> Some (Inl (ReadError ''changes.txt''), w)
      | Some text \<Rightarrow>
          (case changes text of
             Inl e \<Rightarrow> Some (Inl e, w)
           | Inr cs \<Rightarrow> process_changes P (json_files fs) CF_DOMAIN cs w))"


section \<open>Notions the properties are stated with\<close>

text \<open>The calls that change DNS records, and the calls that change a ruleset.\<close>

fun dns_write :: "request \<Rightarrow> bool" where
  "dns_write (PutRecord i p) = True"
| "dns_write (PostRecord p) = True"
| "dns_write (DeleteRecord i) = True"
| "dns_write _ = False"

fun ruleset_call :: "request \<Rightarrow> bool" where
  "ruleset_call GetRulesets = True"
| "ruleset_call PostRuleset = True"
| "ruleset_call (GetRuleset i) = True"
| "ruleset_call (PutRuleset i rules) = True"
| "ruleset_call _ = False"

text \<open>The calls that list the zone's records.\<close>

fun listing :: "request \<Rightarrow> bool" where
  "listing (GetRecords n) = True"
| "listing _ = False"

text \<open>The calls a run has issued: the log it leaves, without the log it started from.\<close>

definition issued :: "'s world \<Rightarrow> 's world \<Rightarrow> request list" where
  "issued w w' = drop (length (snd w)) (snd w')"

text \<open>
  A value that \<open>===\<close> compares by value: anything but an array or an object. A payload is
  plain when each of its fields other than \<open>data\<close> is such a value, as the validator's
  field checks require.
\<close>

fun primitive :: "jsv \<Rightarrow> bool" where
  "primitive (Arr xs) = False"
| "primitive (Obj kvs) = False"
| "primitive _ = True"

definition plain :: "payload \<Rightarrow> bool" where
  "plain p = list_all (\<lambda>(k, v). k = ''data'' \<or> primitive v) p"

text \<open>
  A record of the provider holds a payload when it has the payload's type and name and,
  for every field of the payload, the payload's value (it may have further fields).
\<close>

definition holds :: "remote_record \<Rightarrow> payload \<Rightarrow> bool" where
  "holds e p =
     (payload_get p ''type'' = Str (rtype e) \<and> payload_get p ''name'' = Str (rname e)
      \<and> list_all (\<lambda>key. remote_get e key = payload_get p key) (map fst p))"

text \<open>
  The records of a hostname's scope are converged to a list of desired payloads when
  they are the desired payloads, each held once: no two records have the same type and
  name, every payload is held by a record, and every record holds a payload.
\<close>

definition converged :: "remote_record list \<Rightarrow> payload list \<Rightarrow> bool" where
  "converged existing payloads =
     (distinct (map (\<lambda>e. (rtype e, rname e)) existing)
      \<and> list_all (\<lambda>p. list_ex (\<lambda>e. holds e p) existing) payloads
      \<and> list_all (\<lambda>e. list_ex (\<lambda>p. holds e p) payloads) existing)"

subsection \<open>A provider to run the script against\<close>

text \<open>
  A small provider with the capability set of the remote API: it stores records and
  rulesets, answers every call with success when the resource exists, pages the
  record list by 500, and names what it creates from a counter.
\<close>

record cloud =
  zone_records :: "remote_record list"
  zone_rulesets :: "(ruleset \<times> rule list) list"
  next_id :: nat

definition record_of :: "string \<Rightarrow> payload \<Rightarrow> remote_record" where
  "record_of i p =
     \<lparr> rid = i, rtype = js_String (payload_get p ''type''),
       rname = js_String (payload_get p ''name''),
       rprops = filter (\<lambda>(k, v). k \<noteq> ''type'' \<and> k \<noteq> ''name'') p \<rparr>"

definition cloud_provider :: "cloud provider" where
  "cloud_provider =
     \<lparr> get_rulesets = (\<lambda>s. (Some (map fst (zone_rulesets s)), s)),
       post_ruleset = (\<lambda>s.
          let rs = \<lparr> sid = ''s'' @ string_of_nat (next_id s),
                     phase = ''http_request_dynamic_redirect'', kind = ''zone'' \<rparr>
          in (Some rs, s\<lparr> zone_rulesets := zone_rulesets s @ [(rs, [])],
                           next_id := next_id s + 1 \<rparr>)),
       get_ruleset = (\<lambda>i s.
          (case find (\<lambda>(rs, rules). sid rs = i) (zone_rulesets s) of
             Some (rs, rules) \<Rightarrow> Some (Some rules)
           | None \<Rightarrow> None, s)),
       put_ruleset = (\<lambda>i rules s.
          if i \<in> set (map (sid \<circ> fst) (zone_rulesets s))
          then (Some (), s\<lparr> zone_rulesets :=
                  map (\<lambda>(rs, old). if sid rs = i then (rs, rules) else (rs, old))
                      (zone_rulesets s) \<rparr>)
          else (None, s)),
       get_records = (\<lambda>page s. (Some (take 500 (drop ((page - 1) * 500) (zone_records s))), s)),
       put_record = (\<lambda>i p s.
          if i \<in> set (map rid (zone_records s))
          then (Some (), s\<lparr> zone_records :=
                  map (\<lambda>e. if rid e = i then record_of i p else e) (zone_records s) \<rparr>)
          else (None, s)),
       post_record = (\<lambda>p s.
          (Some (), s\<lparr> zone_records :=
                      zone_records s @ [record_of (''r'' @ string_of_nat (next_id s)) p],
                    next_id := next_id s + 1 \<rparr>)),
       delete_record = (\<lambda>i s.
          if i \<in> set (map rid (zone_records s))
          then (Some (), s\<lparr> zone_records := filter (\<lambda>e. rid e \<noteq> i) (zone_records s) \<rparr>)
          else (None, s)) \<rparr>"

definition empty_cloud :: cloud where
  "empty_cloud = \<lparr> zone_records = [], zone_rulesets = [], next_id = 1 \<rparr>"


subsection \<open>Concrete inputs\<close>

text \<open>A record whose type is written in lower case.\<close>

definition lowercase_a_record :: jsv where
  "lowercase_a_record =
     Obj [(''type'', Str ''a''), (''name'', Str ''blog''), (''value'', Str ''203.0.113.5'')]"



definition txt_record :: jsv where
  "txt_record = Obj [(''type'', Str ''TXT''), (''name'', Str ''blog''), (''value'', Str ''hello'')]"

subsection \<open>Regular expressions: the characters a pattern can match\<close>

fun alphabet :: "regex \<Rightarrow> char set" where
  "alphabet Never = {}"
| "alphabet Eps = {}"
| "alphabet (Cls cs) = set cs"
| "alphabet (Seq r s) = alphabet r \<union> alphabet s"
| "alphabet (Alt r s) = alphabet r \<union> alphabet s"
| "alphabet (Star r) = alphabet r"

text \<open>A pattern that visibly matches nothing.\<close>

fun void :: "regex \<Rightarrow> bool" where
  "void Never = True"
| "void Eps = False"
| "void (Cls cs) = False"
| "void (Seq r s) = (void r \<or> void s)"
| "void (Alt r s) = (void r \<and> void s)"
| "void (Star r) = False"

subsection \<open>Concrete inputs of the validator\<close>

text \<open>A reserved-name source with an entry in upper case, and one in lower case.\<close>

definition reserved_upper :: jsv where
  "reserved_upper = Obj [(''system'', Arr [Str ''WWW''])]"

definition reserved_lower :: jsv where
  "reserved_lower = Obj [(''system'', Arr [Str ''www'', Str ''mail''])]"

text \<open>A reserved-name source whose category is not an array.\<close>

definition reserved_not_arrays :: jsv where
  "reserved_not_arrays = Obj [(''system'', Str ''www'')]"

definition www_definition :: jsv where
  "www_definition =
     Obj [(''user'', Obj [(''username'', Str ''a'')]), (''subdomain'', Str ''www''),
          (''records'', Arr [Obj [(''type'', Str ''TXT''), (''name'', Str ''www''),
                                   (''value'', Str ''hello'')]])]"

text \<open>A file system with one changed definition and no reserved-name source.\<close>

definition www_fs :: filesystem where
  "www_fs = \<lparr> changes_txt = Some ''domains/www.json'',
              json_files = (\<lambda>f. if f = ''domains/www.json'' then Parsed www_definition
                                 else Missing) \<rparr>"

text \<open>The same file system with a reserved-name source whose category is not an array.\<close>

definition not_arrays_fs :: filesystem where
  "not_arrays_fs = \<lparr> changes_txt = Some ''domains/www.json'',
     json_files = (\<lambda>f. if f = ''domains/www.json'' then Parsed www_definition
                         else if f = RESERVED_JSON_PATH then Parsed reserved_not_arrays
                         else Missing) \<rparr>"

text \<open>A piece of a change-feed line: not empty, and without white space.\<close>

definition token :: "string \<Rightarrow> bool" where
  "token t = (t \<noteq> [] \<and> list_all (\<lambda>c. \<not> is_space c) t)"

subsection \<open>Concrete inputs of the reconciler\<close>

text \<open>
  The definition of the subdomain \<open>dev\<close> under the domain \<open>example.dev\<close>, with one URL
  record, named by the hostname.
\<close>

definition dev_url_record :: jsv where
  "dev_url_record =
     Obj [(''type'', Str ''URL''), (''name'', Str ''dev.example.dev''),
          (''value'', Str ''https://example.org/'')]"

definition dev_definition :: jsv where
  "dev_definition =
     Obj [(''user'', Obj [(''username'', Str ''a'')]), (''subdomain'', Str ''dev''),
          (''records'', Arr [dev_url_record])]"

definition dev_fs :: "string \<Rightarrow> json_file" where
  "dev_fs = (\<lambda>f. if f = ''domains/dev.json'' then Parsed dev_definition else Missing)"

text \<open>
  A provider state with the redirect ruleset holding a rule of another hostname and an
  older rule of \<open>dev.example.dev\<close>, and with a record in the scope of \<open>dev\<close> that the
  definition does not have.
\<close>

definition other_rule :: rule where
  "other_rule = new_rule ''blog.example.dev'' (Obj [(''value'', Str ''https://blog.example.org/'')])"

definition older_rule :: rule where
  "older_rule = new_rule ''dev.example.dev'' (Obj [(''value'', Str ''https://old.example.org/'')])"

definition redirects :: ruleset where
  "redirects = \<lparr> sid = ''s1'', phase = ''http_request_dynamic_redirect'', kind = ''zone'' \<rparr>"

definition stale_record :: remote_record where
  "stale_record = \<lparr> rid = ''r1'', rtype = ''TXT'', rname = ''old.dev.example.dev'',
                     rprops = [(''content'', Str ''hello''), (''ttl'', Num 1)] \<rparr>"

definition cloud_before :: cloud where
  "cloud_before = \<lparr> zone_records = [stale_record],
                     zone_rulesets = [(redirects, [other_rule, older_rule])],
                     next_id = 2 \<rparr>"

text \<open>The payload of the URL record, and the provider state that the first run leaves.\<close>

definition dev_payload :: payload where
  "dev_payload = [(''type'', Str ''AAAA''), (''name'', Str ''dev.example.dev''),
                  (''content'', Str ''100::''), (''ttl'', Num 1), (''proxied'', Bool True)]"

definition dev_rule :: rule where
  "dev_rule = new_rule ''dev.example.dev'' dev_url_record"

definition cloud_after :: cloud where
  "cloud_after = \<lparr> zone_records = [record_of ''r2'' dev_payload],
                    zone_rulesets = [(redirects, [other_rule, dev_rule])],
                    next_id = 3 \<rparr>"

text \<open>
  A definition with one A record and no URL record, named by the hostname; a provider
  state with a record of another hostname and another record in the scope of \<open>dev\<close>;
  and the state the first run leaves.
\<close>

definition address_record :: jsv where
  "address_record =
     Obj [(''type'', Str ''A''), (''name'', Str ''dev.example.dev''),
          (''value'', Str ''203.0.113.5'')]"

definition address_definition :: jsv where
  "address_definition =
     Obj [(''user'', Obj [(''username'', Str ''a'')]), (''subdomain'', Str ''dev''),
          (''records'', Arr [address_record])]"

definition address_fs :: "string \<Rightarrow> json_file" where
  "address_fs = (\<lambda>f. if f = ''domains/dev.json'' then Parsed address_definition else Missing)"

definition address_payload :: payload where
  "address_payload = [(''type'', Str ''A''), (''name'', Str ''dev.example.dev''), (''ttl'', Num 1),
                      (''proxied'', Bool False), (''content'', Str ''203.0.113.5'')]"

definition neighbour_record :: remote_record where
  "neighbour_record = \<lparr> rid = ''r0'', rtype = ''A'', rname = ''blog.example.dev'',
                         rprops = [(''content'', Str ''198.51.100.7''), (''ttl'', Num 1),
                                   (''proxied'', Bool False)] \<rparr>"

definition cloud_start :: cloud where
  "cloud_start = \<lparr> zone_records = [neighbour_record, stale_record], zone_rulesets = [],
                    next_id = 2 \<rparr>"

definition cloud_address :: cloud where
  "cloud_address = \<lparr> zone_records = [neighbour_record, record_of ''r2'' address_payload],
                      zone_rulesets = [], next_id = 3 \<rparr>"

text \<open>
  The scenario of the specification: the subdomain \<open>blog\<close> under \<open>example.com\<close>, with one
  A record named \<open>blog\<close>, as the validator requires. The state the first run leaves in an
  empty zone, and a zone that lists the record under its full name.
\<close>

definition blog_record :: jsv where
  "blog_record =
     Obj [(''type'', Str ''A''), (''name'', Str ''blog''), (''value'', Str ''203.0.113.5'')]"

definition blog_definition :: jsv where
  "blog_definition =
     Obj [(''user'', Obj [(''username'', Str ''a'')]), (''subdomain'', Str ''blog''),
          (''records'', Arr [blog_record])]"

definition blog_fs :: "string \<Rightarrow> json_file" where
  "blog_fs = (\<lambda>f. if f = ''domains/blog.json'' then Parsed blog_definition else Missing)"

definition blog_payload :: payload where
  "blog_payload = [(''type'', Str ''A''), (''name'', Str ''blog''), (''ttl'', Num 1),
                   (''proxied'', Bool False), (''content'', Str ''203.0.113.5'')]"

definition cloud_blog :: cloud where
  "cloud_blog = \<lparr> zone_records = [record_of ''r1'' blog_payload],
                   zone_rulesets = [], next_id = 2 \<rparr>"

definition cloud_blog_full :: cloud where
  "cloud_blog_full =
     \<lparr> zone_records = [\<lparr> rid = ''r1'', rtype = ''A'', rname = ''blog.example.com'',
                          rprops = [(''content'', Str ''203.0.113.5''), (''ttl'', Num 1),
                                    (''proxied'', Bool False)] \<rparr>],
       zone_rulesets = [], next_id = 2 \<rparr>"

text \<open>
  A definition with two TXT records of one name, named by the hostname, and the state the
  first run leaves in an empty zone.
\<close>

definition twin_definition :: jsv where
  "twin_definition =
     Obj [(''user'', Obj [(''username'', Str ''a'')]), (''subdomain'', Str ''dev''),
          (''records'',
           Arr [Obj [(''type'', Str ''TXT''), (''name'', Str ''dev.example.dev''),
                     (''value'', Str ''one'')],
                Obj [(''type'', Str ''TXT''), (''name'', Str ''dev.example.dev''),
                     (''value'', Str ''two'')]])]"

definition twin_fs :: "string \<Rightarrow> json_file" where
  "twin_fs = (\<lambda>f. if f = ''domains/dev.json'' then Parsed twin_definition else Missing)"

definition twin_payload :: "string \<Rightarrow> payload" where
  "twin_payload v = [(''type'', Str ''TXT''), (''name'', Str ''dev.example.dev''), (''ttl'', Num 1),
                     (''content'', Str v)]"

definition cloud_twin :: cloud where
  "cloud_twin = \<lparr> zone_records = [record_of ''r1'' (twin_payload ''one''),
                                   record_of ''r2'' (twin_payload ''two'')],
                   zone_rulesets = [], next_id = 3 \<rparr>"

text \<open>
  A definition whose TXT record has an array for a value, and the state the first run
  leaves in an empty zone.
\<close>

definition nested_definition :: jsv where
  "nested_definition =
     Obj [(''user'', Obj [(''username'', Str ''a'')]), (''subdomain'', Str ''dev''),
          (''records'',
           Arr [Obj [(''type'', Str ''TXT''), (''name'', Str ''dev.example.dev''),
                     (''value'', Arr [Str ''one''])]])]"

definition nested_fs :: "string \<Rightarrow> json_file" where
  "nested_fs = (\<lambda>f. if f = ''domains/dev.json'' then Parsed nested_definition else Missing)"

definition nested_payload :: payload where
  "nested_payload = [(''type'', Str ''TXT''), (''name'', Str ''dev.example.dev''), (''ttl'', Num 1),
                     (''content'', Arr [Str ''one''])]"

definition cloud_nested :: cloud where
  "cloud_nested = \<lparr> zone_records = [record_of ''r1'' nested_payload],
                     zone_rulesets = [], next_id = 2 \<rparr>"

text \<open>
  A definition of the subdomain \<open>www\<close> with an empty record list, stored under a file
  name that does not match.
\<close>

definition www_no_records :: jsv where
  "www_no_records =
     Obj [(''user'', Obj [(''username'', Str ''a'')]), (''subdomain'', Str ''www''),
          (''records'', Arr [])]"

section \<open>Properties of the payload builder\<close>

lemma test_ipv4_example: "test IPV4_REGEX ''203.0.113.5''"
  by (simp add: test_def IPV4_REGEX_def octet_def digit_def Opt_def eval_nat_numeral)

lemma toUpperCase_a: "toUpperCase ''a'' = ''A''"
  by (simp add: toUpperCase_def upper_char_def)

text \<open>
  For a type that is exactly \<open>"A"\<close>, \<open>"AAAA"\<close> or \<open>"CNAME"\<close> the payload carries \<open>proxied\<close>
  (\<open>false\<close> when the record has none) and \<open>content\<close>, the record's value.
\<close>

lemma buildPayload_address:
  assumes "\<not> nullish r" and "getp r ''type'' = Str t"
    and "t = ''A'' \<or> t = ''AAAA'' \<or> t = ''CNAME''"
  shows "buildPayload r =
           Inr [(''type'', Str t), (''name'', getp r ''name''), (''ttl'', Num 1),
                (''proxied'', if nullish (getp r ''proxied'') then Bool False
                              else getp r ''proxied''),
                (''content'', getp r ''value'')]"
proof -
  have "t = ''A'' \<Longrightarrow> ?thesis"
    using assms(1,2) by (simp add: buildPayload_def type_in_def)
  moreover have "t = ''AAAA'' \<Longrightarrow> ?thesis"
    using assms(1,2) by (simp add: buildPayload_def type_in_def)
  moreover have "t = ''CNAME'' \<Longrightarrow> ?thesis"
    using assms(1,2) by (simp add: buildPayload_def type_in_def)
  ultimately show ?thesis using assms(3) by blast
qed

text \<open>
  C3. A record of type \<open>"a"\<close> passes the validator's record checks, which compare the
  upper-cased type, and \<open>buildPayload\<close>, which compares the type as written, gives it a
  payload with neither \<open>content\<close> nor \<open>proxied\<close>.
\<close>

theorem buildPayload_lowercase_type:
  "validate_record ''domains/blog.json'' ''blog'' (False, False) lowercase_a_record
     = Inr (False, False)
   \<and> buildPayload lowercase_a_record
     = Inr [(''type'', Str ''a''), (''name'', Str ''blog''), (''ttl'', Num 1)]"
proof
  show "validate_record ''domains/blog.json'' ''blog'' (False, False) lowercase_a_record
     = Inr (False, False)"
    by (simp add: validate_record_def lowercase_a_record_def toUpperCase_a
        ALLOWED_RECORD_KEYS_def ALLOWED_TYPES_def endsWith_def check_type_def test_ipv4_example)
next
  show "buildPayload lowercase_a_record
     = Inr [(''type'', Str ''a''), (''name'', Str ''blog''), (''ttl'', Num 1)]"
    by (simp add: buildPayload_def lowercase_a_record_def nullish_def type_in_def)
qed

text \<open>
  At that record the upper-cased type is \<open>"A"\<close>, and the payload built has no \<open>content\<close>
  and no \<open>proxied\<close>.
\<close>

theorem buildPayload_lowercase_type_witness:
  "toUpperCase (js_String (getp lowercase_a_record ''type'')) = ''A''
   \<and> (\<exists>p. buildPayload lowercase_a_record = Inr p
          \<and> payload_get p ''content'' = Undefined \<and> payload_get p ''proxied'' = Undefined)"
  using buildPayload_lowercase_type
  by (simp add: payload_get_def lowercase_a_record_def toUpperCase_a)

section \<open>Properties of the record checks\<close>

lemma check_type_allowed:
  assumes "type \<in> set ALLOWED_TYPES"
  shows "check_type file type r flags \<noteq> Inl (Fail f (UnreachableRecordType t))"
proof -
  have "type = ''A'' \<or> type = ''AAAA'' \<or> type = ''CNAME'' \<or> type = ''TXT'' \<or> type = ''URL''
        \<or> type = ''MX'' \<or> type = ''SRV'' \<or> type = ''CAA'' \<or> type = ''NS'' \<or> type = ''DS''
        \<or> type = ''TLSA''"
    using assms by (simp add: ALLOWED_TYPES_def)
  then show ?thesis
    by (elim disjE) (simp_all add: check_type_def)
qed

text \<open>Without the membership check before it, the chain does end in the fallback.\<close>

lemma check_type_fallback:
  "check_type file ''FOO'' r flags = Inl (Fail file (UnreachableRecordType ''FOO''))"
  by (simp add: check_type_def)

text \<open>
  C9. For a type among the eleven allowed ones the chain of type-specific branches never
  ends in the fallback, and the checks of one record, which run the chain only after
  the membership check, never fail with the unreachable-record-type reason.
\<close>

theorem fallback_never_reached:
  "(type \<in> set ALLOWED_TYPES \<longrightarrow>
      check_type file type r flags \<noteq> Inl (Fail f (UnreachableRecordType t)))
   \<and> validate_record file subdomain flags r \<noteq> Inl (Fail f (UnreachableRecordType t))"
proof
  show "type \<in> set ALLOWED_TYPES \<longrightarrow>
      check_type file type r flags \<noteq> Inl (Fail f (UnreachableRecordType t))"
    by (simp add: check_type_allowed)
next
  show "validate_record file subdomain flags r \<noteq> Inl (Fail f (UnreachableRecordType t))"
    by (simp add: validate_record_def Let_def check_type_allowed split: option.splits)
qed

theorem fallback_never_reached_witness:
  "''TXT'' \<in> set ALLOWED_TYPES
   \<and> check_type ''domains/blog.json'' ''TXT'' txt_record (False, False)
       \<noteq> Inl (Fail ''domains/blog.json'' (UnreachableRecordType ''TXT''))
   \<and> validate_record ''domains/blog.json'' ''blog'' (False, False) txt_record
       \<noteq> Inl (Fail ''domains/blog.json'' (UnreachableRecordType ''TXT''))"
  using fallback_never_reached [of "''TXT''" "''domains/blog.json''" txt_record "(False, False)"
      "''domains/blog.json''" "''TXT''" "''blog''"]
  by (simp add: ALLOWED_TYPES_def)




section \<open>Properties of the reserved-name check\<close>

lemma void_not_nullable: "void r \<Longrightarrow> \<not> nullable r"
  by (induction r) auto

lemma void_deriv: "void r \<Longrightarrow> void (deriv c r)"
  by (induction r) (auto simp: void_not_nullable)

lemma deriv_outside: "c \<notin> alphabet r \<Longrightarrow> void (deriv c r)"
  by (induction r) auto

lemma void_fold: "void r \<Longrightarrow> void (fold deriv s r)"
  by (induction s arbitrary: r) (auto simp: void_deriv)

lemma alphabet_deriv: "alphabet (deriv c r) \<subseteq> alphabet r"
  by (induction r) auto

text \<open>A string that a pattern matches is made of characters of the pattern's classes.\<close>

lemma test_alphabet: "test r s \<Longrightarrow> set s \<subseteq> alphabet r"
proof (induction s arbitrary: r)
  case Nil
  then show ?case by simp
next
  case (Cons c s)
  have t: "test (deriv c r) s" using Cons.prems by (simp add: test_def)
  have "c \<in> alphabet r"
  proof (rule ccontr)
    assume "c \<notin> alphabet r"
    then have "void (fold deriv s (deriv c r))" by (simp add: deriv_outside void_fold)
    then show False using t by (simp add: test_def void_not_nullable)
  qed
  moreover have "set s \<subseteq> alphabet r"
    using Cons.IH [OF t] alphabet_deriv [of c r] by blast
  ultimately show ?case by simp
qed

lemma subdomain_chars_of: "test SUBDOMAIN_REGEX s \<Longrightarrow> set s \<subseteq> set subdomain_chars"
  using test_alphabet [of SUBDOMAIN_REGEX s] by (simp add: SUBDOMAIN_REGEX_def Plus_def)

lemma subdomain_nonempty: "test SUBDOMAIN_REGEX s \<Longrightarrow> s \<noteq> []"
  by (auto simp: test_def SUBDOMAIN_REGEX_def Plus_def)

lemma lower_char_all: "list_all (\<lambda>c. lower_char c = c) subdomain_chars"
  by (simp add: subdomain_chars_def lower_char_def)

lemma lower_char_subdomain: "c \<in> set subdomain_chars \<Longrightarrow> lower_char c = c"
  using lower_char_all by (simp add: list_all_iff)

text \<open>The format check leaves nothing for \<open>toLowerCase\<close> to change.\<close>

lemma toLowerCase_subdomain: "test SUBDOMAIN_REGEX s \<Longrightarrow> toLowerCase s = s"
proof -
  assume "test SUBDOMAIN_REGEX s"
  then have "\<forall>c\<in>set s. lower_char c = c"
    using subdomain_chars_of [of s] lower_char_subdomain by blast
  then show ?thesis unfolding toLowerCase_def by (induction s) auto
qed

lemma checks_before_subdomain:
  assumes "checks_before_reserved file data = Inr sub"
  shows "getp data ''subdomain'' = Str sub \<and> test SUBDOMAIN_REGEX sub"
proof -
  have last: "(if \<not> test SUBDOMAIN_REGEX (js_String (getp data ''subdomain''))
                 then Inl (Fail file InvalidSubdomainFormat)
               else (case getp data ''subdomain'' of
                       Str subdomain \<Rightarrow> Inr subdomain
                     | _ \<Rightarrow> Inl Uncaught)) = Inr sub"
    using assms unfolding checks_before_reserved_def
    by (simp split: if_split_asm option.split_asm)
  then have t: "test SUBDOMAIN_REGEX (js_String (getp data ''subdomain''))"
    by (simp split: if_split_asm)
  with last have "(case getp data ''subdomain'' of
                       Str subdomain \<Rightarrow> Inr subdomain
                     | _ \<Rightarrow> (Inl Uncaught :: failure + string)) = Inr sub"
    by simp
  then have "getp data ''subdomain'' = Str sub"
    by (cases "getp data ''subdomain''") simp_all
  with t show ?thesis by simp
qed

lemma set_flat_arrays:
  "set (flat (filter isArray vals)) = {x. \<exists>xs. Arr xs \<in> set vals \<and> x \<in> set xs}"
proof (induction vals)
  case Nil
  then show ?case by simp
next
  case (Cons v vals)
  then show ?case by (cases v) auto
qed

text \<open>
  A definition that passes with an empty denylist is, with any denylist, rejected as
  reserved exactly when its subdomain is an element of the denylist as it stands.
\<close>

lemma reserved_check_exact:
  assumes ok: "validate_file [] file (Parsed data) = Inr ()"
  shows "validate_file RESERVED_SUBDOMAINS file (Parsed data) =
          (if getp data ''subdomain'' \<in> set RESERVED_SUBDOMAINS
           then Inl (Fail file (ReservedSubdomain (js_String (getp data ''subdomain''))))
           else Inr ())"
proof -
  from ok obtain sub where pre: "checks_before_reserved file data = Inr sub"
    and post: "checks_after_reserved file sub data = Inr ()"
    by (auto simp: validate_file_def split: sum.splits)
  from checks_before_subdomain [OF pre]
  have sub: "getp data ''subdomain'' = Str sub" and low: "toLowerCase sub = sub"
    by (simp_all add: toLowerCase_subdomain)
  show ?thesis
    by (simp add: validate_file_def pre post sub low)
qed

lemma www_passes: "validate_file [] ''domains/www.json'' (Parsed www_definition) = Inr ()"
  by (simp add: validate_file_def checks_before_reserved_def checks_after_reserved_def
      www_definition_def nullish_def ALLOWED_TOP_KEYS_def REQUIRED_TOP_KEYS_def
      REQUIRED_USER_KEYS_def test_def SUBDOMAIN_REGEX_def Plus_def subdomain_chars_def
      MAX_RECORDS_def validate_record_def toUpperCase_def upper_char_def
      ALLOWED_RECORD_KEYS_def ALLOWED_TYPES_def endsWith_def check_type_def)

lemma www_subdomain: "getp www_definition ''subdomain'' = Str ''www''"
  by (simp add: www_definition_def)

lemma reserved_check_position:
  assumes "checks_before_reserved file data = Inr sub"
  shows "toLowerCase sub = sub
         \<and> validate_file RESERVED_SUBDOMAINS file (Parsed data) =
             (if Str sub \<in> set RESERVED_SUBDOMAINS
              then Inl (Fail file (ReservedSubdomain sub))
              else checks_after_reserved file sub data)"
  using checks_before_subdomain [OF assms] assms
  by (simp add: validate_file_def toLowerCase_subdomain)

text \<open>
  C5, as the code has it. The denylist holds the elements of every array-valued category
  as they are written in the source, without case normalisation. A definition that
  passes the checks standing before the reserved-name check (well-formed JSON, top-level
  keys, user, subdomain format) has a subdomain that \<open>toLowerCase\<close> leaves as it is, and it
  is rejected as reserved exactly when that subdomain is equal, case and all, to a string
  of the denylist, whatever its file name and its records are: the file-name and record
  checks come only afterwards. A definition that fails one of the earlier checks
  fails with that check's reason, whatever the denylist is.
\<close>

theorem denylist_verbatim:
  "(Object_values src = Some vals \<longrightarrow>
      set (fst (load_reserved (Parsed src))) = {x. \<exists>xs. Arr xs \<in> set vals \<and> x \<in> set xs})
   \<and> (checks_before_reserved file data = Inr sub \<longrightarrow>
        toLowerCase sub = sub
        \<and> validate_file RESERVED_SUBDOMAINS file (Parsed data) =
            (if Str sub \<in> set RESERVED_SUBDOMAINS
             then Inl (Fail file (ReservedSubdomain sub))
             else checks_after_reserved file sub data))
   \<and> (checks_before_reserved file data = Inl e \<longrightarrow>
        validate_file RESERVED_SUBDOMAINS file (Parsed data) = Inl e)
   \<and> (validate_file [] file (Parsed data) = Inr () \<longrightarrow>
        validate_file RESERVED_SUBDOMAINS file (Parsed data) =
          (if getp data ''subdomain'' \<in> set RESERVED_SUBDOMAINS
           then Inl (Fail file (ReservedSubdomain (js_String (getp data ''subdomain''))))
           else Inr ()))"
proof (intro conjI impI)
  assume "Object_values src = Some vals"
  then show "set (fst (load_reserved (Parsed src))) = {x. \<exists>xs. Arr xs \<in> set vals \<and> x \<in> set xs}"
    by (simp add: load_reserved_def set_flat_arrays)
next
  assume "checks_before_reserved file data = Inr sub"
  then show "toLowerCase sub = sub"
    by (simp add: reserved_check_position)
next
  assume "checks_before_reserved file data = Inr sub"
  then show "validate_file RESERVED_SUBDOMAINS file (Parsed data) =
            (if Str sub \<in> set RESERVED_SUBDOMAINS
             then Inl (Fail file (ReservedSubdomain sub))
             else checks_after_reserved file sub data)"
    using reserved_check_position by blast
next
  assume "checks_before_reserved file data = Inl e"
  then show "validate_file RESERVED_SUBDOMAINS file (Parsed data) = Inl e"
    by (simp add: validate_file_def)
next
  assume "validate_file [] file (Parsed data) = Inr ()"
  then show "validate_file RESERVED_SUBDOMAINS file (Parsed data) =
          (if getp data ''subdomain'' \<in> set RESERVED_SUBDOMAINS
           then Inl (Fail file (ReservedSubdomain (js_String (getp data ''subdomain''))))
           else Inr ())"
    by (rule reserved_check_exact)
qed

text \<open>
  The definition below has no record and a file name that does not match. With the
  denylist of a source that lists \<open>"www"\<close> it is rejected as reserved; with an empty
  denylist it fails the file-name check, which comes next.
\<close>

theorem denylist_verbatim_witness:
  "Object_values reserved_lower = Some [Arr [Str ''www'', Str ''mail'']]
   \<and> set (fst (load_reserved (Parsed reserved_lower))) = {Str ''www'', Str ''mail''}
   \<and> checks_before_reserved ''domains/other.json'' www_no_records = Inr ''www''
   \<and> validate_file (fst (load_reserved (Parsed reserved_lower))) ''domains/other.json''
        (Parsed www_no_records)
      = Inl (Fail ''domains/other.json'' (ReservedSubdomain ''www''))
   \<and> validate_file [] ''domains/other.json'' (Parsed www_no_records)
      = Inl (Fail ''domains/other.json'' (FilenameMustMatch ''domains/www.json''))"
proof -
  have v: "Object_values reserved_lower = Some [Arr [Str ''www'', Str ''mail'']]"
    by (simp add: reserved_lower_def)
  have l: "fst (load_reserved (Parsed reserved_lower)) = [Str ''www'', Str ''mail'']"
    by (simp add: load_reserved_def reserved_lower_def)
  have b: "checks_before_reserved ''domains/other.json'' www_no_records = Inr ''www''"
    by (simp add: checks_before_reserved_def www_no_records_def nullish_def
        ALLOWED_TOP_KEYS_def REQUIRED_TOP_KEYS_def REQUIRED_USER_KEYS_def test_def
        SUBDOMAIN_REGEX_def Plus_def subdomain_chars_def)
  have a: "checks_after_reserved ''domains/other.json'' ''www'' www_no_records
      = Inl (Fail ''domains/other.json'' (FilenameMustMatch ''domains/www.json''))"
    by (simp add: checks_after_reserved_def)
  from denylist_verbatim [of reserved_lower "[Arr [Str ''www'', Str ''mail'']]"
      "''domains/other.json''" www_no_records "''www''" "[Str ''www'', Str ''mail'']"] v b
  have r: "validate_file [Str ''www'', Str ''mail''] ''domains/other.json'' (Parsed www_no_records)
      = Inl (Fail ''domains/other.json'' (ReservedSubdomain ''www''))"
    by simp
  from denylist_verbatim [of reserved_lower "[Arr [Str ''www'', Str ''mail'']]"
      "''domains/other.json''" www_no_records "''www''" "[]"] b a
  have n: "validate_file [] ''domains/other.json'' (Parsed www_no_records)
      = Inl (Fail ''domains/other.json'' (FilenameMustMatch ''domains/www.json''))"
    by simp
  show ?thesis using v l b r n by simp
qed

text \<open>
  With the source entry \<open>"WWW"\<close> the denylist holds \<open>"WWW"\<close>, not \<open>"www"\<close>, and the
  definition of the subdomain \<open>www\<close> is accepted.
\<close>

theorem uppercase_entry_reserves_nothing:
  "fst (load_reserved (Parsed reserved_upper)) = [Str ''WWW'']
   \<and> validate_file (fst (load_reserved (Parsed reserved_upper))) ''domains/www.json''
        (Parsed www_definition) = Inr ()"
proof -
  have l: "fst (load_reserved (Parsed reserved_upper)) = [Str ''WWW'']"
    by (simp add: load_reserved_def reserved_upper_def)
  have "validate_file [Str ''WWW''] ''domains/www.json'' (Parsed www_definition) = Inr ()"
    using reserved_check_exact [OF www_passes, of "[Str ''WWW'']"]
    by (simp add: www_subdomain)
  then show ?thesis by (simp add: l)
qed

section \<open>Properties of the reserved-name source\<close>

lemma www_files: "files ''domains/www.json'' = [''domains/www.json'']"
  by (simp add: files_def is_domain_file_def endsWith_def)

lemma www_run: "validate_changes [] www_fs = Passed"
  by (simp add: validate_changes_def www_fs_def www_files www_passes)

lemma load_caught: "src \<in> {Missing, Malformed, Parsed Null} \<Longrightarrow> load_reserved src = ([], True)"
  by (auto simp: load_reserved_def)

lemma load_not_caught:
  "Object_values v = Some vals \<Longrightarrow>
     snd (load_reserved (Parsed v)) = False
     \<and> (list_all (\<lambda>x. \<not> isArray x) vals \<longrightarrow> fst (load_reserved (Parsed v)) = [])"
  by (simp add: load_reserved_def list_all_iff filter_empty_conv [THEN iffD2])

text \<open>
  C7, as the code has it. When the reserved-name source is missing, does not parse, or
  parses to \<open>null\<close>, the warning is printed and the run goes on with an empty denylist: its
  verdict is that of all the other checks, each file passing from the checks before the
  reserved-name check straight to the checks after it. When the source parses to any
  other value no warning is printed, whatever its shape: the values of the categories
  that are not arrays are dropped, and a source with no array among them gives an empty
  denylist. Of the other files the script reads, an unreadable \<open>changes.txt\<close> and a
  definition file that does not parse end the run, and a listed definition file that
  does not exist is skipped.
\<close>

theorem reserved_load_failure_degrades:
  "(json_files fs RESERVED_JSON_PATH \<in> {Missing, Malformed, Parsed Null} \<longrightarrow>
      validator fs = (validate_changes [] fs, True))
   \<and> validate_file [] file (Parsed data) =
       (case checks_before_reserved file data of
          Inl e \<Rightarrow> Inl e
        | Inr subdomain \<Rightarrow> checks_after_reserved file subdomain data)
   \<and> (Object_values v = Some vals \<longrightarrow>
        snd (load_reserved (Parsed v)) = False
        \<and> (list_all (\<lambda>x. \<not> isArray x) vals \<longrightarrow> fst (load_reserved (Parsed v)) = []))
   \<and> (changes_txt fs = None \<longrightarrow> fst (validator fs) = Stopped Uncaught)
   \<and> validate_file RESERVED_SUBDOMAINS file Malformed = Inl (Fail file InvalidJSON)
   \<and> (json_files fs file = Missing \<longrightarrow>
        validate_files RESERVED_SUBDOMAINS (json_files fs) (file # rest) =
        validate_files RESERVED_SUBDOMAINS (json_files fs) rest)"
proof (intro conjI impI)
  assume "json_files fs RESERVED_JSON_PATH \<in> {Missing, Malformed, Parsed Null}"
  then show "validator fs = (validate_changes [] fs, True)"
    by (simp add: validator_def load_caught)
next
  show "validate_file [] file (Parsed data) =
       (case checks_before_reserved file data of
          Inl e \<Rightarrow> Inl e
        | Inr subdomain \<Rightarrow> checks_after_reserved file subdomain data)"
    by (simp add: validate_file_def split: sum.splits)
next
  assume "Object_values v = Some vals"
  then show "snd (load_reserved (Parsed v)) = False"
    by (simp add: load_not_caught)
next
  assume "Object_values v = Some vals" and "list_all (\<lambda>x. \<not> isArray x) vals"
  then show "fst (load_reserved (Parsed v)) = []"
    by (simp add: load_not_caught)
next
  assume "changes_txt fs = None"
  then show "fst (validator fs) = Stopped Uncaught"
    by (simp add: validator_def validate_changes_def split: prod.splits)
next
  show "validate_file RESERVED_SUBDOMAINS file Malformed = Inl (Fail file InvalidJSON)"
    by (simp add: validate_file_def)
next
  assume "json_files fs file = Missing"
  then show "validate_files RESERVED_SUBDOMAINS (json_files fs) (file # rest) =
        validate_files RESERVED_SUBDOMAINS (json_files fs) rest"
    by simp
qed

theorem reserved_load_failure_degrades_witness:
  "json_files www_fs RESERVED_JSON_PATH = Missing \<and> validator www_fs = (Passed, True)"
proof -
  have m: "json_files www_fs RESERVED_JSON_PATH = Missing"
    by (simp add: www_fs_def RESERVED_JSON_PATH_def)
  then have "validator www_fs = (validate_changes [] www_fs, True)"
    using reserved_load_failure_degrades [of www_fs] by simp
  then show ?thesis using m www_run by simp
qed

text \<open>
  A source whose one category holds a string instead of an array: the denylist is
  empty, and no warning is printed.
\<close>

theorem no_warning_for_other_shapes:
  "load_reserved (Parsed reserved_not_arrays) = ([], False)
   \<and> validator not_arrays_fs = (Passed, False)"
proof -
  have l: "load_reserved (Parsed reserved_not_arrays) = ([], False)"
    by (simp add: load_reserved_def reserved_not_arrays_def)
  have r: "json_files not_arrays_fs RESERVED_JSON_PATH = Parsed reserved_not_arrays"
    by (simp add: not_arrays_fs_def RESERVED_JSON_PATH_def)
  have "validate_changes [] not_arrays_fs = Passed"
    by (simp add: validate_changes_def not_arrays_fs_def www_files www_passes
        RESERVED_JSON_PATH_def)
  then show ?thesis by (simp add: validator_def r l)
qed

section \<open>Properties of the change feed\<close>

lemma split_no_sep: "sep \<notin> set l \<Longrightarrow> split sep l = [l]"
  by (induction l) auto

lemma split_append_sep: "sep \<notin> set l \<Longrightarrow> split sep (l @ sep # rest) = l # split sep rest"
  by (induction l) auto

lemma split_join:
  "\<forall>l\<in>set ls. sep \<notin> set l \<Longrightarrow> ls \<noteq> [] \<Longrightarrow> split sep (join [sep] ls) = ls"
proof (induction "[sep]" ls rule: join.induct)
  case 1
  then show ?case by simp
next
  case (2 p)
  then show ?case by (simp add: split_no_sep)
next
  case (3 p q ps)
  then show ?case by (simp add: split_append_sep)
qed

lemma not_domain_file_empty: "\<not> is_domain_file []"
  by (simp add: is_domain_file_def)

lemma files_join:
  assumes "\<forall>l\<in>set lines. CHR 0x0A \<notin> set l"
  shows "files (join [CHR 0x0A] lines) = filter is_domain_file lines"
proof (cases "lines = []")
  case True
  then show ?thesis by (simp add: files_def not_domain_file_empty)
next
  case False
  then show ?thesis using assms by (simp add: files_def split_join)
qed

lemma startsWith_iff: "startsWith s p \<longleftrightarrow> (\<exists>t. s = p @ t)"
  by (induction s p rule: startsWith.induct) auto

lemma status_line_not_selected:
  assumes "CHR ''/'' \<notin> set st"
  shows "\<not> is_domain_file (st @ '' '' @ path)"
proof
  assume "is_domain_file (st @ '' '' @ path)"
  then obtain t where eq: "st @ '' '' @ path = ''domains/'' @ t"
    by (auto simp: is_domain_file_def startsWith_iff)
  show False
  proof (cases "8 \<le> length st")
    case True
    from eq have "take 8 (st @ '' '' @ path) = take 8 (''domains/'' @ t)" by simp
    then have "take 8 st = ''domains/''" using True by simp
    then have "CHR ''/'' \<in> set (take 8 st)" by simp
    then show False using assms by (meson in_set_takeD)
  next
    case False
    then have lt: "length st < length ''domains/''" by simp
    have "(st @ '' '' @ path) ! length st = CHR '' ''" by (simp add: nth_append)
    moreover have "(''domains/'' @ t) ! length st = ''domains/'' ! length st"
      using lt by (metis nth_append)
    ultimately have "CHR '' '' = ''domains/'' ! length st" using eq by metis
    moreover have "''domains/'' ! length st \<in> set ''domains/''"
      using lt by (intro nth_mem)
    ultimately show False by auto
  qed
qed

lemma split_spaces_token:
  "list_all (\<lambda>c. \<not> is_space c) t \<Longrightarrow> t \<noteq> [] \<Longrightarrow> split_spaces t = [t]"
  by (induction t rule: split_spaces.induct) auto

lemma split_spaces_pair:
  assumes "list_all (\<lambda>c. \<not> is_space c) st" and "token f"
  shows "split_spaces (st @ CHR '' '' # f) = [st, f]"
  using assms
proof (induction st)
  case Nil
  then obtain d s where f: "f = d # s" by (cases f) (auto simp: token_def)
  then show ?case using Nil split_spaces_token [of f]
    by (simp add: token_def is_space_def)
next
  case (Cons c st)
  obtain d s where r: "st @ CHR '' '' # f = d # s" by (cases st) auto
  have "split_spaces (c # d # s) = (case split_spaces (d # s) of [] \<Rightarrow> [[c]] | p # ps \<Rightarrow> (c # p) # ps)"
    using Cons.prems by simp
  then show ?case using Cons r by simp
qed

lemma parse_line_pair:
  "token st \<Longrightarrow> token f \<Longrightarrow>
     parse_line (st @ CHR '' '' # f) = Some \<lparr> c_status = st, c_file = f \<rparr>"
  by (simp add: parse_line_def split_spaces_pair token_def)

lemma line_no_newline:
  "token st \<Longrightarrow> token f \<Longrightarrow> CHR 0x0A \<notin> set (st @ '' '' @ f) \<and> st @ '' '' @ f \<noteq> []"
  by (auto simp: token_def list_all_iff is_space_def)

lemma changes_join:
  assumes "\<forall>(st, f)\<in>set entries. token st \<and> token f"
  shows "changes (join [CHR 0x0A] (map (\<lambda>(st, f). st @ '' '' @ f) entries)) =
           Inr (filter (\<lambda>c. is_domain_file (c_file c))
                  (map (\<lambda>(st, f). \<lparr> c_status = st, c_file = f \<rparr>) entries))"
proof (cases "entries = []")
  case True
  then show ?thesis by (simp add: changes_def)
next
  case False
  let ?lines = "map (\<lambda>(st, f). st @ '' '' @ f) entries"
  have nl: "\<forall>l\<in>set ?lines. CHR 0x0A \<notin> set l" and ne: "\<forall>l\<in>set ?lines. l \<noteq> []"
    using assms line_no_newline by fastforce+
  have sp: "split CHR 0x0A (join [CHR 0x0A] ?lines) = ?lines"
    using nl False by (intro split_join) auto
  have fl: "filter (\<lambda>l. l \<noteq> []) ?lines = ?lines"
    using ne by (simp add: filter_id_conv)
  have pl: "map parse_line ?lines = map (\<lambda>(st, f). Some \<lparr> c_status = st, c_file = f \<rparr>) entries"
    using assms
  proof (induction entries)
    case Nil
    then show ?case by simp
  next
    case (Cons e es)
    obtain st f where e: "e = (st, f)" by (cases e)
    with Cons.prems have "token st" "token f" by auto
    then have "parse_line (st @ CHR '' '' # f) = Some \<lparr> c_status = st, c_file = f \<rparr>"
      by (rule parse_line_pair)
    then show ?case using Cons e by simp
  qed
  have nn: "None \<notin> set (map parse_line ?lines)"
    unfolding pl by auto
  have th: "map the (map parse_line ?lines) = map (\<lambda>(st, f). \<lparr> c_status = st, c_file = f \<rparr>) entries"
    unfolding pl by auto
  have "changes (join [CHR 0x0A] ?lines) =
          (let parsed = map parse_line ?lines in
           if None \<in> set parsed then Inl TypeError
           else Inr (filter (\<lambda>c. is_domain_file (c_file c)) (map the parsed)))"
    by (simp only: changes_def sp fl)
  also have "\<dots> = Inr (filter (\<lambda>c. is_domain_file (c_file c)) (map the (map parse_line ?lines)))"
    using nn by (simp only: Let_def if_False)
  finally show ?thesis by (simp only: th)
qed

text \<open>
  C4, as the code has it. The validator filters the lines of \<open>changes.txt\<close> themselves:
  it selects exactly the lines that begin with \<open>domains/\<close> and end with \<open>.json\<close>, so its
  change feed is a list of bare paths, and a line that begins with a status (any word
  without a slash) and a space is never selected. It is the reconciler that reads
  lines of the form \<open><status> <path>\<close>, and selects exactly the entries whose path begins
  with \<open>domains/\<close> and ends with \<open>.json\<close>.
\<close>

theorem change_feed_selection:
  "((\<forall>l\<in>set lines. CHR 0x0A \<notin> set l) \<longrightarrow>
      files (join [CHR 0x0A] lines) = filter is_domain_file lines)
   \<and> (CHR ''/'' \<notin> set st \<longrightarrow> \<not> is_domain_file (st @ '' '' @ path))
   \<and> ((\<forall>(st, f)\<in>set entries. token st \<and> token f) \<longrightarrow>
        changes (join [CHR 0x0A] (map (\<lambda>(st, f). st @ '' '' @ f) entries)) =
          Inr (filter (\<lambda>c. is_domain_file (c_file c))
                 (map (\<lambda>(st, f). \<lparr> c_status = st, c_file = f \<rparr>) entries)))"
  using files_join status_line_not_selected changes_join by blast

theorem change_feed_selection_witness:
  "files (join [CHR 0x0A] [''domains/blog.json'', ''README.md'']) = [''domains/blog.json'']
   \<and> \<not> is_domain_file (''A'' @ '' '' @ ''domains/blog.json'')
   \<and> changes (join [CHR 0x0A] (map (\<lambda>(st, f). st @ '' '' @ f)
          [(''A'', ''domains/blog.json''), (''M'', ''README.md'')])) =
        Inr [\<lparr> c_status = ''A'', c_file = ''domains/blog.json'' \<rparr>]"
proof -
  have d: "is_domain_file ''domains/blog.json''" and r: "\<not> is_domain_file ''README.md''"
    by (simp_all add: is_domain_file_def endsWith_def)
  have t: "token ''A''" "token ''M''" "token ''domains/blog.json''" "token ''README.md''"
    by (simp_all add: token_def is_space_def)
  show ?thesis
    using change_feed_selection [of "[''domains/blog.json'', ''README.md'']" "''A''"
        "''domains/blog.json''" "[(''A'', ''domains/blog.json''), (''M'', ''README.md'')]"]
      d r t
    by simp
qed

text \<open>
  The path \<open>domains/blog.json\<close> is a definition file, and the validator does not select
  the line \<open>A domains/blog.json\<close>.
\<close>

theorem status_line_selects_nothing:
  "is_domain_file ''domains/blog.json'' \<and> files ''A domains/blog.json'' = []"
  by (simp add: files_def is_domain_file_def endsWith_def)

section \<open>Properties of the redirect rules\<close>

lemma includes_str_iff: "includes_str s p \<longleftrightarrow> (\<exists>pre post. s = pre @ p @ post)"
proof (induction s)
  case Nil
  then show ?case by auto
next
  case (Cons c s)
  show ?case
  proof
    assume "includes_str (c # s) p"
    then consider "startsWith (c # s) p" | "includes_str s p" by auto
    then show "\<exists>pre post. c # s = pre @ p @ post"
    proof cases
      case 1
      then obtain t where "c # s = p @ t" by (auto simp: startsWith_iff)
      then have "c # s = [] @ p @ t" by simp
      then show ?thesis by blast
    next
      case 2
      then obtain pre post where "s = pre @ p @ post" using Cons.IH by blast
      then have "c # s = (c # pre) @ p @ post" by simp
      then show ?thesis by blast
    qed
  next
    assume "\<exists>pre post. c # s = pre @ p @ post"
    then obtain pre post where eq: "c # s = pre @ p @ post" by blast
    show "includes_str (c # s) p"
    proof (cases pre)
      case Nil
      then have "startsWith (c # s) p" using eq by (auto simp: startsWith_iff)
      then show ?thesis by simp
    next
      case (Cons a pre')
      then have "s = pre' @ p @ post" using eq by simp
      then have "includes_str s p" using Cons.IH by blast
      then show ?thesis by simp
    qed
  qed
qed

lemma first_occurrence:
  assumes "q \<notin> set A" and "A @ q # B = pre @ q # R"
  shows "(pre = A \<and> B = R) \<or> (\<exists>m. pre = A @ q # m \<and> B = m @ q # R)"
  using assms
proof (induction A arbitrary: pre)
  case Nil
  then show ?case by (cases pre) auto
next
  case (Cons a A)
  then obtain pre' where p: "pre = a # pre'" by (cases pre) auto
  with Cons.prems have "A @ q # B = pre' @ q # R" and "q \<notin> set A" by auto
  from Cons.IH [OF this(2) this(1)] show ?case using p by auto
qed

lemma same_prefix_before:
  assumes "c \<notin> set xs" and "c \<notin> set ys" and "xs @ c # us = ys @ c # vs"
  shows "xs = ys"
  using first_occurrence [OF assms(1) assms(3)] assms(2) by auto

lemma prefix_without:
  assumes "q \<notin> set X" and "X @ Y = m @ q # Z"
  shows "length X \<le> length m"
  using assms
proof (induction X arbitrary: m)
  case Nil
  then show ?case by simp
next
  case (Cons a X)
  then obtain m' where m: "m = a # m'" by (cases m) auto
  with Cons.prems have "X @ Y = m' @ q # Z" and "q \<notin> set X" by auto
  from Cons.IH [OF this(2) this(1)] show ?case using m by simp
qed

lemma subdomain_no_dot_quote:
  assumes "test SUBDOMAIN_REGEX s"
  shows "CHR ''.'' \<notin> set s" and "CHR 0x22 \<notin> set s"
proof -
  have "CHR ''.'' \<notin> set subdomain_chars" and "CHR 0x22 \<notin> set subdomain_chars"
    by (simp_all add: subdomain_chars_def)
  then show "CHR ''.'' \<notin> set s" and "CHR 0x22 \<notin> set s"
    using subdomain_chars_of [OF assms] by blast+
qed

lemma ownership_of_generated_rule:
  assumes s1: "test SUBDOMAIN_REGEX sub1" and s2: "test SUBDOMAIN_REGEX sub2"
  shows "includes_str (''(http.host eq '' @ quoted (sub1 @ ''.'' @ D) @ '')'')
           (quoted (sub2 @ ''.'' @ D)) \<longleftrightarrow> sub1 = sub2"
proof
  assume "sub1 = sub2"
  then have "''(http.host eq '' @ quoted (sub1 @ ''.'' @ D) @ '')''
      = ''(http.host eq '' @ quoted (sub2 @ ''.'' @ D) @ '')''" by simp
  then show "includes_str (''(http.host eq '' @ quoted (sub1 @ ''.'' @ D) @ '')'')
           (quoted (sub2 @ ''.'' @ D))"
    unfolding includes_str_iff by blast
next
  let ?q = "CHR 0x22"
  let ?B = "sub1 @ CHR ''.'' # D @ [?q] @ '')''"
  assume "includes_str (''(http.host eq '' @ quoted (sub1 @ ''.'' @ D) @ '')'')
           (quoted (sub2 @ ''.'' @ D))"
  then obtain pre post where
    "''(http.host eq '' @ quoted (sub1 @ ''.'' @ D) @ '')'' = pre @ quoted (sub2 @ ''.'' @ D) @ post"
    unfolding includes_str_iff by blast
  then have eq: "''(http.host eq '' @ ?q # ?B = pre @ ?q # (sub2 @ CHR ''.'' # D @ [?q] @ post)"
    by (simp add: quoted_def)
  have nq: "?q \<notin> set ''(http.host eq ''" by simp
  from first_occurrence [OF nq eq]
  consider (a) "?B = sub2 @ CHR ''.'' # D @ [?q] @ post"
    | (b) m where "?B = m @ ?q # (sub2 @ CHR ''.'' # D @ [?q] @ post)"
    by blast
  then show "sub1 = sub2"
  proof cases
    case a
    then show ?thesis
      using same_prefix_before [of "CHR ''.''" sub1 sub2] subdomain_no_dot_quote(1) s1 s2
      by blast
  next
    case b
    have "?q \<notin> set (sub1 @ ''.'')" using subdomain_no_dot_quote(2) [OF s1] by simp
    moreover from b have "(sub1 @ ''.'') @ (D @ [?q] @ '')'') = m @ ?q # (sub2 @ CHR ''.'' # D @ [?q] @ post)"
      by simp
    ultimately have "length (sub1 @ ''.'') \<le> length m" by (rule prefix_without)
    moreover from b have "length ?B = length (m @ ?q # (sub2 @ CHR ''.'' # D @ [?q] @ post))"
      by simp
    ultimately show ?thesis by simp
  qed
qed

lemma generated_rule_owned_iff:
  assumes "test SUBDOMAIN_REGEX sub1" and "test SUBDOMAIN_REGEX sub2"
  shows "includes_str (expression (new_rule (hostname_of (Str sub1) domain) r))
           (quoted (hostname_of (Str sub2) domain)) \<longleftrightarrow> sub1 = sub2"
proof -
  have e: "\<And>h. expression (new_rule h r) = ''(http.host eq '' @ quoted h @ '')''"
    by (simp add: new_rule_def)
  have h: "\<And>s. hostname_of (Str s) domain = s @ ''.'' @ js_String domain"
    by (simp add: hostname_of_def)
  show ?thesis
    using ownership_of_generated_rule [OF assms, of "js_String domain"]
    by (simp only: e h)
qed

text \<open>
  The ownership filter of \<open>syncRedirects\<close>, applied to rules that were generated for
  subdomains of one domain, keeps exactly the rules of the other subdomains.
\<close>

lemma otherRules_generated:
  assumes "\<forall>(s, r)\<in>set entries. test SUBDOMAIN_REGEX s" and "test SUBDOMAIN_REGEX sub2"
  shows "otherRules (hostname_of (Str sub2) domain)
           (map (\<lambda>(s, r). new_rule (hostname_of (Str s) domain) r) entries)
         = map (\<lambda>(s, r). new_rule (hostname_of (Str s) domain) r)
             (filter (\<lambda>(s, r). s \<noteq> sub2) entries)"
  using assms(1)
proof (induction entries)
  case Nil
  then show ?case by (simp add: otherRules_def)
next
  case (Cons x entries)
  obtain s r where x: "x = (s, r)" by (cases x)
  with Cons.prems have t: "test SUBDOMAIN_REGEX s" by simp
  have rest: "\<forall>(s, r)\<in>set entries. test SUBDOMAIN_REGEX s" using Cons.prems by simp
  have ih: "filter (\<lambda>r. \<not> includes_str (expression r) (quoted (hostname_of (Str sub2) domain)))
              (map (\<lambda>(s, r). new_rule (hostname_of (Str s) domain) r) entries)
            = map (\<lambda>(s, r). new_rule (hostname_of (Str s) domain) r)
                (filter (\<lambda>(s, r). s \<noteq> sub2) entries)"
    using Cons.IH [OF rest] by (simp add: otherRules_def)
  show ?case
    using generated_rule_owned_iff [OF t assms(2), of domain r] ih
    by (simp add: otherRules_def x)
qed

text \<open>
  C10. For two subdomains that match \<open>/^[a-z0-9-]+$/\<close> and one domain, the rule generated
  for the hostname of the first, whose expression is \<open>(http.host eq "h1")\<close>, passes the
  ownership test of the hostname of the second (its expression contains \<open>"h2"\<close>) exactly
  when the two hostnames are equal, that is when the two subdomains are. So the filter
  \<open>otherRules\<close> of \<open>syncRedirects\<close>, run for the second hostname, discards that rule when
  the hostnames are equal and keeps it otherwise, and from a list of rules generated for
  several such subdomains it keeps exactly those of the other subdomains; a hostname
  that is a proper suffix or prefix of another never captures the other's generated
  rules.
\<close>

theorem generated_rule_ownership:
  assumes "test SUBDOMAIN_REGEX sub1" and "test SUBDOMAIN_REGEX sub2"
    and "h1 = hostname_of (Str sub1) domain" and "h2 = hostname_of (Str sub2) domain"
    and "\<forall>(s, r)\<in>set entries. test SUBDOMAIN_REGEX s"
  shows "(includes_str (expression (new_rule h1 r)) (quoted h2) \<longleftrightarrow> h1 = h2)
         \<and> (h1 = h2 \<longleftrightarrow> sub1 = sub2)
         \<and> otherRules h2 (newRules h1 urlRecords) = (if h1 = h2 then [] else newRules h1 urlRecords)
         \<and> otherRules h2 (map (\<lambda>(s, r). new_rule (hostname_of (Str s) domain) r) entries)
             = map (\<lambda>(s, r). new_rule (hostname_of (Str s) domain) r)
                 (filter (\<lambda>(s, r). s \<noteq> sub2) entries)"
proof -
  have h: "h1 = sub1 @ ''.'' @ js_String domain" "h2 = sub2 @ ''.'' @ js_String domain"
    using assms(3,4) by (simp_all add: hostname_of_def)
  have own: "\<And>r. includes_str (expression (new_rule h1 r)) (quoted h2) \<longleftrightarrow> sub1 = sub2"
    unfolding assms(3,4) using assms(1,2) by (rule generated_rule_owned_iff)
  have eq: "h1 = h2 \<longleftrightarrow> sub1 = sub2"
    unfolding h by simp
  have "otherRules h2 (newRules h1 urlRecords) = (if sub1 = sub2 then [] else newRules h1 urlRecords)"
    by (simp add: otherRules_def newRules_def own filter_map comp_def)
  moreover have "otherRules h2 (map (\<lambda>(s, r). new_rule (hostname_of (Str s) domain) r) entries)
             = map (\<lambda>(s, r). new_rule (hostname_of (Str s) domain) r)
                 (filter (\<lambda>(s, r). s \<noteq> sub2) entries)"
    unfolding assms(4) using assms(5,2) by (rule otherRules_generated)
  ultimately show ?thesis using own eq by simp
qed

theorem generated_rule_ownership_witness:
  "test SUBDOMAIN_REGEX ''ab'' \<and> test SUBDOMAIN_REGEX ''b''
   \<and> \<not> includes_str (expression (new_rule ''ab.example.com'' (Obj []))) (quoted ''b.example.com'')
   \<and> otherRules ''b.example.com'' (newRules ''ab.example.com'' [Obj [], Null])
       = newRules ''ab.example.com'' [Obj [], Null]
   \<and> otherRules ''b.example.com''
        [new_rule ''ab.example.com'' (Obj []), new_rule ''b.example.com'' Null,
         new_rule ''a-b.example.com'' Null]
       = [new_rule ''ab.example.com'' (Obj []), new_rule ''a-b.example.com'' Null]"
proof -
  have t: "test SUBDOMAIN_REGEX ''ab''" "test SUBDOMAIN_REGEX ''b''"
    "test SUBDOMAIN_REGEX ''a-b''"
    by (simp_all add: test_def SUBDOMAIN_REGEX_def Plus_def subdomain_chars_def)
  have h: "''ab.example.com'' = hostname_of (Str ''ab'') (Str ''example.com'')"
    "''b.example.com'' = hostname_of (Str ''b'') (Str ''example.com'')"
    by (simp_all add: hostname_of_def)
  have a: "hostname_of (Str ''a-b'') (Str ''example.com'') = ''a-b.example.com''"
    by (simp add: hostname_of_def)
  have e: "\<forall>(s, r)\<in>set [(''ab'', Obj []), (''b'', Null), (''a-b'', Null)]. test SUBDOMAIN_REGEX s"
    using t by simp
  from generated_rule_ownership [OF t(1) t(2) h(1) h(2) e, of "Obj []" "[Obj [], Null]"] t
  show ?thesis by (simp add: h [symmetric] a)
qed

lemma cf_log: "snd (snd (cf req answer w)) = snd w @ [req]"
  by (simp add: cf_def split: prod.splits option.splits)

lemma snd_rewrap:
  "snd (case x of (Inl e, w4) \<Rightarrow> (Inl e, w4) | (Inr u, w4) \<Rightarrow> (Inr (), w4)) = snd x"
  by (cases x; cases "fst x") auto

lemma filter_same_length: "length (filter P xs) = length xs \<Longrightarrow> filter P xs = xs"
proof (induction xs)
  case Nil
  then show ?case by simp
next
  case (Cons x xs)
  have "length (filter P xs) \<le> length xs" by simp
  with Cons show ?case by (cases "P x") auto
qed

lemma syncRedirects_log:
  assumes a1: "cf GetRulesets (get_rulesets P) w = (Inr sets, w1)"
    and a2: "(case find is_redirect_ruleset sets of
               Some ruleset \<Rightarrow> (Inr ruleset, w1)
             | None \<Rightarrow> cf PostRuleset (post_ruleset P) w1) = (Inr ruleset, w2)"
    and a3: "cf (GetRuleset (sid ruleset)) (get_ruleset P (sid ruleset)) w2 = (Inr rules, w3)"
    and c: "currentRules = (case rules of Some rs \<Rightarrow> rs | None \<Rightarrow> [])"
    and h: "h = hostname_of sub domain"
    and wr: "written = filter (\<lambda>r. \<not> includes_str (expression r) (quoted h)) currentRules
                       @ map (new_rule h) urlRecords"
  shows "snd (snd (syncRedirects P sub urlRecords domain w)) =
           (if urlRecords = [] \<and> written = currentRules then snd w3
            else snd w3 @ [PutRuleset (sid ruleset) written])"
proof -
  let ?others = "otherRules h currentRules"
  let ?new = "newRules h urlRecords"
  have w: "written = ?others @ ?new" by (simp add: wr otherRules_def newRules_def)
  have run: "syncRedirects P sub urlRecords domain w =
      (if length ?others + length ?new \<noteq> length currentRules \<or> length ?new > 0
       then (case cf (PutRuleset (sid ruleset) (?others @ ?new))
                     (put_ruleset P (sid ruleset) (?others @ ?new)) w3 of
               (Inl e, w4) \<Rightarrow> (Inl e, w4)
             | (Inr u, w4) \<Rightarrow> (Inr (), w4))
       else (Inr (), w3))"
    by (simp only: syncRedirects_def Let_def h [symmetric] a1 a2 a3 prod.case sum.case
        c [symmetric])
  have g: "(length ?others + length ?new \<noteq> length currentRules \<or> length ?new > 0)
            \<longleftrightarrow> \<not> (urlRecords = [] \<and> written = currentRules)"
  proof (cases "urlRecords = []")
    case True
    then show ?thesis
      using filter_same_length [of "\<lambda>r. \<not> includes_str (expression r) (quoted h)" currentRules]
      by (auto simp: w otherRules_def newRules_def)
  next
    case False
    then show ?thesis by (simp add: newRules_def)
  qed
  show ?thesis
    unfolding run g w [symmetric]
    by (simp add: snd_rewrap cf_log)
qed


text \<open>
  C8. In an invocation of the redirect-rule convergence that gets as far as reading the
  ruleset's current rules, the list written is the current rules without those whose
  expression contains the quoted hostname, in their order and unchanged, followed by
  the rules built for this hostname; the one call that may follow the reads is the
  write of that list, and it is left out only when there is no URL record and no rule
  of this hostname to discard, the list then being the current list itself.
\<close>

theorem other_rules_carried_over:
  assumes "cf GetRulesets (get_rulesets P) w = (Inr sets, w1)"
    and "(case find is_redirect_ruleset sets of
               Some ruleset \<Rightarrow> (Inr ruleset, w1)
             | None \<Rightarrow> cf PostRuleset (post_ruleset P) w1) = (Inr ruleset, w2)"
    and "cf (GetRuleset (sid ruleset)) (get_ruleset P (sid ruleset)) w2 = (Inr rules, w3)"
    and "currentRules = (case rules of Some rs \<Rightarrow> rs | None \<Rightarrow> [])"
    and "h = hostname_of sub domain"
    and "written = filter (\<lambda>r. \<not> includes_str (expression r) (quoted h)) currentRules
                       @ map (new_rule h) urlRecords"
  shows "snd (snd (syncRedirects P sub urlRecords domain w)) =
           (if urlRecords = [] \<and> written = currentRules then snd w3
            else snd w3 @ [PutRuleset (sid ruleset) written])"
  using assms by (rule syncRedirects_log)

lemma other_rule_not_owned:
  "\<not> includes_str (expression other_rule) (quoted ''dev.example.dev'')"
  by (simp add: other_rule_def new_rule_def quoted_def)

lemma older_rule_owned:
  "includes_str (expression older_rule) (quoted ''dev.example.dev'')"
  by (simp add: older_rule_def new_rule_def quoted_def)

lemma dev_hostname: "hostname_of (Str ''dev'') (Str ''example.dev'') = ''dev.example.dev''"
  by (simp add: hostname_of_def)

lemma cloud_before_rulesets:
  "cf GetRulesets (get_rulesets cloud_provider) (cloud_before, log)
     = (Inr [redirects], (cloud_before, log @ [GetRulesets]))"
  by (simp add: cf_def cloud_provider_def cloud_before_def)

lemma redirects_found: "find is_redirect_ruleset [redirects] = Some redirects"
  by (simp add: is_redirect_ruleset_def redirects_def)

lemma cloud_before_rules:
  "cf (GetRuleset (sid redirects)) (get_ruleset cloud_provider (sid redirects)) (cloud_before, log)
     = (Inr (Some [other_rule, older_rule]), (cloud_before, log @ [GetRuleset ''s1'']))"
  by (simp add: cf_def cloud_provider_def cloud_before_def redirects_def)

theorem other_rules_carried_over_witness:
  "snd (snd (syncRedirects cloud_provider (Str ''dev'') [dev_url_record] (Str ''example.dev'')
               (cloud_before, [])))
   = [GetRulesets, GetRuleset ''s1'',
      PutRuleset ''s1'' [other_rule, new_rule ''dev.example.dev'' dev_url_record]]"
proof -
  have a2: "(case find is_redirect_ruleset [redirects] of
               Some ruleset \<Rightarrow> (Inr ruleset, (cloud_before, [] @ [GetRulesets]))
             | None \<Rightarrow> cf PostRuleset (post_ruleset cloud_provider) (cloud_before, [] @ [GetRulesets]))
            = (Inr redirects, (cloud_before, [] @ [GetRulesets]))"
    by (simp only: redirects_found option.case)
  have c: "[other_rule, older_rule] = (case Some [other_rule, older_rule] of Some rs \<Rightarrow> rs | None \<Rightarrow> [])"
    by simp
  have wr: "[other_rule, new_rule ''dev.example.dev'' dev_url_record]
      = filter (\<lambda>r. \<not> includes_str (expression r) (quoted ''dev.example.dev''))
          [other_rule, older_rule] @ map (new_rule ''dev.example.dev'') [dev_url_record]"
    by (simp add: other_rule_not_owned older_rule_owned)
  from other_rules_carried_over [OF cloud_before_rulesets a2 cloud_before_rules c
      dev_hostname [symmetric] wr]
  show ?thesis by (simp add: redirects_def)
qed

section \<open>Properties of the DNS record convergence\<close>

lemma strict_eq_Str: "strict_eq (Str a) v \<longleftrightarrow> v = Str a"
  by (cases v) auto

lemma same_key_iff:
  "same_key e p \<longleftrightarrow>
     payload_get p ''type'' = Str (rtype e) \<and> payload_get p ''name'' = Str (rname e)"
  by (simp add: same_key_def strict_eq_Str)

lemma find_match_unique:
  assumes "distinct (map (\<lambda>e. (rtype e, rname e)) existing)"
    and "e \<in> set existing" and "same_key e p"
  shows "find_match existing p = Some e"
  using assms
proof (induction existing)
  case Nil
  then show ?case by simp
next
  case (Cons x xs)
  show ?case
  proof (cases "same_key x p")
    case True
    have "x = e"
    proof (rule ccontr)
      assume "x \<noteq> e"
      then have "e \<in> set xs" using Cons.prems(2) by auto
      moreover have "(rtype x, rname x) = (rtype e, rname e)"
        using True Cons.prems(3) by (simp add: same_key_iff)
      ultimately have "(rtype x, rname x) \<in> set (map (\<lambda>e. (rtype e, rname e)) xs)"
        by force
      then show False using Cons.prems(1) by simp
    qed
    then show ?thesis using True by (simp add: find_match_def)
  next
    case False
    then have "e \<in> set xs" using Cons.prems(2,3) by auto
    then have "find_match xs p = Some e" using Cons.IH Cons.prems by simp
    then show ?thesis using False by (simp add: find_match_def)
  qed
qed

lemma apply_records_converged:
  assumes "distinct (map (\<lambda>e. (rtype e, rname e)) existing)"
    and "\<forall>p\<in>set ps. \<exists>e\<in>set existing. same_key e p \<and> sameRecord e p"
    and "map buildPayload rs = map Inr ps"
  shows "\<exists>keep'. apply_records P existing rs keep w = (Inr keep', w) \<and> keep \<subseteq> keep'
           \<and> (\<forall>p\<in>set ps. \<forall>e\<in>set existing. same_key e p \<longrightarrow> rid e \<in> keep')"
  using assms(2,3)
proof (induction rs arbitrary: ps keep)
  case Nil
  then show ?case by simp
next
  case (Cons r rs)
  from Cons.prems(2) obtain p ps' where ps: "ps = p # ps'"
    by (cases ps) simp_all
  with Cons.prems(2) have b: "buildPayload r = Inr p"
    and bs: "map buildPayload rs = map Inr ps'"
    by simp_all
  from Cons.prems(1) ps obtain e where e: "e \<in> set existing" "same_key e p" "sameRecord e p"
    by auto
  have m: "find_match existing p = Some e"
    using assms(1) e(1,2) by (rule find_match_unique)
  have only: "e' = e" if "e' \<in> set existing" "same_key e' p" for e'
    using find_match_unique [OF assms(1) that] m by simp
  have rest: "\<forall>p\<in>set ps'. \<exists>e\<in>set existing. same_key e p \<and> sameRecord e p"
    using Cons.prems(1) ps by simp
  from Cons.IH [OF rest bs, of "insert (rid e) keep"]
  obtain keep' where k: "apply_records P existing rs (insert (rid e) keep) w = (Inr keep', w)"
    "insert (rid e) keep \<subseteq> keep'"
    "\<forall>p\<in>set ps'. \<forall>e\<in>set existing. same_key e p \<longrightarrow> rid e \<in> keep'"
    by blast
  have step: "apply_records P existing (r # rs) keep w = (Inr keep', w)"
    by (simp add: b m e(3) k(1))
  have "\<forall>q\<in>set ps. \<forall>e'\<in>set existing. same_key e' q \<longrightarrow> rid e' \<in> keep'"
  proof (intro ballI impI)
    fix q e' assume q: "q \<in> set ps" and e': "e' \<in> set existing" "same_key e' q"
    show "rid e' \<in> keep'"
    proof (cases "q = p")
      case True
      then have "e' = e" using only e' by simp
      then show ?thesis using k(2) by auto
    next
      case False
      then have "q \<in> set ps'" using q ps by simp
      then show ?thesis using k(3) e' by blast
    qed
  qed
  moreover have "keep \<subseteq> keep'" using k(2) by auto
  ultimately show ?case using step by blast
qed

lemma cleanup_kept: "rid ` set rs \<subseteq> keep \<Longrightarrow> cleanup P keep rs w = (Inr (), w)"
  by (induction rs arbitrary: w) auto

lemma rewrap_id:
  "(case x of (Inl e, w3) \<Rightarrow> Some (Inl e, w3) | (Inr u, w3) \<Rightarrow> Some (Inr (), w3)) = Some x"
  by (cases x; cases "fst x") auto


lemma listAllRecords_from_log:
  fixes P :: "'s provider"
  assumes "listAllRecords_from P page records w = Some y"
  shows "\<exists>reqs. snd (snd y) = snd w @ reqs \<and> list_all listing reqs"
proof -
  define Q where "Q = (\<lambda>(x :: (('s provider \<times> nat) \<times> remote_record list) \<times> 's world)
      (y :: (sync_error + remote_record list) \<times> 's world).
        \<exists>reqs. snd (snd y) = snd (snd x) @ reqs \<and> list_all listing reqs)"
  have "Q (((P, page), records), w) y"
  proof (rule listAllRecords_from.raw_induct [where Pa = Q, OF _ assms])
    fix f :: "'s provider \<Rightarrow> nat \<Rightarrow> remote_record list \<Rightarrow> 's world \<Rightarrow>
                ((sync_error + remote_record list) \<times> 's world) option"
    fix P page records w y
    assume IH: "\<And>P page records w y. f P page records w = Some y \<Longrightarrow> Q (((P, page), records), w) y"
    assume body: "(case cf (GetRecords page) (get_records P page) w of
        (Inl e, w') \<Rightarrow> Some (Inl e, w')
      | (Inr batch, w') \<Rightarrow>
          if length batch < 500 then Some (Inr (records @ batch), w')
          else f P (page + 1) (records @ batch) w') = Some y"
    obtain r w' where c: "cf (GetRecords page) (get_records P page) w = (r, w')"
      by (cases "cf (GetRecords page) (get_records P page) w")
    then have lw: "snd w' = snd w @ [GetRecords page]"
      using cf_log [of "GetRecords page" "get_records P page" w] by simp
    show "Q (((P, page), records), w) y"
    proof (cases r)
      case (Inl e)
      then have "y = (Inl e, w')" using body c by simp
      then show ?thesis using lw by (simp add: Q_def)
    next
      case (Inr batch)
      show ?thesis
      proof (cases "length batch < 500")
        case True
        then have "y = (Inr (records @ batch), w')" using body c Inr by simp
        then show ?thesis using lw by (simp add: Q_def)
      next
        case False
        then have "f P (page + 1) (records @ batch) w' = Some y" using body c Inr by simp
        from IH [OF this] obtain reqs where
          "snd (snd y) = snd w' @ reqs" "list_all listing reqs"
          by (auto simp: Q_def)
        then have "snd (snd y) = snd w @ (GetRecords page # reqs)
            \<and> list_all listing (GetRecords page # reqs)"
          using lw by simp
        then show ?thesis unfolding Q_def by (simp only: snd_conv) blast
      qed
    qed
  qed
  then show ?thesis by (simp add: Q_def)
qed

lemma syncRedirects_only_ruleset_calls:
  "\<exists>reqs. snd (snd (syncRedirects P sub urls domain w)) = snd w @ reqs \<and> list_all ruleset_call reqs"
  by (auto simp: syncRedirects_def Let_def cf_def split: prod.splits sum.splits option.splits)

lemma syncRedirects_success_writes:
  assumes "urls \<noteq> []" and "syncRedirects P sub urls domain w = (Inr (), w')"
  shows "issued w w' \<noteq> [] \<and> (\<exists>i rules. last (issued w w') = PutRuleset i rules)"
  using assms
  by (auto simp: syncRedirects_def Let_def cf_def newRules_def issued_def
      split: prod.splits sum.splits option.splits if_splits)

lemma issued_append:
  "snd w1 = snd w @ a \<Longrightarrow> snd w' = snd w1 @ b \<Longrightarrow> issued w w' = a @ b \<and> issued w1 w' = b"
  by (simp add: issued_def)

lemma listing_no_write: "listing q \<Longrightarrow> \<not> dns_write q"
  by (cases q) simp_all

lemma ruleset_call_no_write: "ruleset_call q \<Longrightarrow> \<not> dns_write q"
  by (cases q) simp_all


lemma strict_eq_refl: "primitive v \<Longrightarrow> strict_eq v v"
  by (cases v) simp_all

lemma payload_get_in: "k \<in> set (map fst p) \<Longrightarrow> (k, payload_get p k) \<in> set p"
  by (induction p) (auto simp: payload_get_def)

lemma holds_same:
  assumes "holds e p" and "plain p"
  shows "same_key e p \<and> sameRecord e p"
proof -
  have k: "same_key e p" using assms(1) by (simp add: holds_def same_key_iff)
  have "(if key = ''data''
         then stringify (remote_get e ''data'') = stringify (payload_get p ''data'')
         else strict_eq (remote_get e key) (payload_get p key))"
    if "key \<in> set (map fst p)" for key
  proof -
    have eq: "remote_get e key = payload_get p key"
      using assms(1) that by (auto simp: holds_def list_all_iff)
    have "primitive (payload_get p key)" if "key \<noteq> ''data''"
      using payload_get_in [OF \<open>key \<in> set (map fst p)\<close>] assms(2) that
      by (auto simp: plain_def list_all_iff)
    then show ?thesis using eq by (auto simp: strict_eq_refl)
  qed
  then have "sameRecord e p" unfolding sameRecord_def list_all_iff by blast
  with k show ?thesis by simp
qed

lemma converged_run:
  assumes f: "fs file = Parsed data" and nn: "\<not> nullish data"
    and recs: "getp data ''records'' = Arr records"
    and l: "listAllRecords P w = Some (Inr all, w1)"
    and b: "map buildPayload records = map Inr payloads"
    and pl: "list_all plain payloads"
    and c: "converged (recordsForSubdomain (getp data ''subdomain'') all domain) payloads"
    and u: "urlRecords = filter (\<lambda>r. getp r ''type'' = Str ''URL'') records"
  shows "applyFile P fs file domain w =
           Some (if urlRecords = [] then (Inr (), w1)
                 else syncRedirects P (getp data ''subdomain'') urlRecords domain w1)"
proof -
  let ?existing = "recordsForSubdomain (getp data ''subdomain'') all domain"
  from c have d: "distinct (map (\<lambda>e. (rtype e, rname e)) ?existing)"
    and ex0: "\<forall>p\<in>set payloads. \<exists>e\<in>set ?existing. holds e p"
    and all0: "\<forall>e\<in>set ?existing. \<exists>p\<in>set payloads. holds e p"
    by (auto simp: converged_def list_all_iff list_ex_iff)
  have ex: "\<forall>p\<in>set payloads. \<exists>e\<in>set ?existing. same_key e p \<and> sameRecord e p"
    using ex0 pl holds_same by (metis list_all_iff)
  have all: "\<forall>e\<in>set ?existing. \<exists>p\<in>set payloads. same_key e p"
    using all0 pl holds_same by (metis list_all_iff)
  from apply_records_converged [OF d ex b, of P "{}" w1]
  obtain keep where loop: "apply_records P ?existing records {} w1 = (Inr keep, w1)"
    and ks: "\<forall>p\<in>set payloads. \<forall>e\<in>set ?existing. same_key e p \<longrightarrow> rid e \<in> keep"
    by blast
  have kept: "rid ` set ?existing \<subseteq> keep" using all ks by blast
  have cl: "\<And>w3. cleanup P keep ?existing w3 = (Inr (), w3)"
    using kept by (rule cleanup_kept)
  show ?thesis
  proof (cases "urlRecords = []")
    case True
    then show ?thesis
      unfolding applyFile_def using f nn recs l loop cl u
      by (simp add: Let_def)
  next
    case False
    obtain res w3 where s: "syncRedirects P (getp data ''subdomain'') urlRecords domain w1 = (res, w3)"
      by (cases "syncRedirects P (getp data ''subdomain'') urlRecords domain w1")
    show ?thesis
      unfolding applyFile_def using f nn recs l loop cl u False s
      by (cases res) (simp_all add: Let_def)
  qed
qed

lemma dns_log_apply_records:
  "\<exists>reqs. snd (snd (apply_records P existing rs keep w)) = snd w @ reqs \<and> list_all dns_write reqs"
proof (induction rs arbitrary: keep w)
  case Nil
  then show ?case by simp
next
  case (Cons r rs)
  show ?case
  proof (cases "buildPayload r")
    case (Inl e)
    then show ?thesis by simp
  next
    case (Inr p)
    show ?thesis
    proof (cases "find_match existing p")
      case None
      obtain res w' where c: "cf (PostRecord p) (post_record P p) w = (res, w')"
        by (cases "cf (PostRecord p) (post_record P p) w")
      then have lw: "snd w' = snd w @ [PostRecord p]"
        using cf_log [of "PostRecord p" "post_record P p" w] by simp
      show ?thesis
      proof (cases res)
        case (Inl e)
        then show ?thesis using Inr None c lw by simp
      next
        case (Inr u)
        from Cons.IH [of keep w'] obtain reqs where
          "snd (snd (apply_records P existing rs keep w')) = snd w' @ reqs" "list_all dns_write reqs"
          by blast
        then have "snd (snd (apply_records P existing rs keep w')) = snd w @ (PostRecord p # reqs)
            \<and> list_all dns_write (PostRecord p # reqs)"
          using lw by simp
        then show ?thesis using \<open>buildPayload r = Inr p\<close> None c Inr by auto
      qed
    next
      case (Some m)
      show ?thesis
      proof (cases "sameRecord m p")
        case True
        then show ?thesis using Inr Some Cons.IH [of "insert (rid m) keep" w] by simp
      next
        case False
        obtain res w' where c: "cf (PutRecord (rid m) p) (put_record P (rid m) p) w = (res, w')"
          by (cases "cf (PutRecord (rid m) p) (put_record P (rid m) p) w")
        then have lw: "snd w' = snd w @ [PutRecord (rid m) p]"
          using cf_log [of "PutRecord (rid m) p" "put_record P (rid m) p" w] by simp
        show ?thesis
        proof (cases res)
          case (Inl e)
          then show ?thesis using Inr Some False c lw by simp
        next
          case (Inr u)
          from Cons.IH [of "insert (rid m) keep" w'] obtain reqs where
            "snd (snd (apply_records P existing rs (insert (rid m) keep) w')) = snd w' @ reqs"
            "list_all dns_write reqs"
            by blast
          then have "snd (snd (apply_records P existing rs (insert (rid m) keep) w'))
              = snd w @ (PutRecord (rid m) p # reqs)
            \<and> list_all dns_write (PutRecord (rid m) p # reqs)"
            using lw by simp
          then show ?thesis using \<open>buildPayload r = Inr p\<close> Some False c Inr by auto
        qed
      qed
    qed
  qed
qed

lemma dns_log_cleanup:
  "\<exists>reqs. snd (snd (cleanup P keep rs w)) = snd w @ reqs \<and> list_all dns_write reqs"
proof (induction rs arbitrary: w)
  case Nil
  then show ?case by simp
next
  case (Cons r rs)
  show ?case
  proof (cases "rid r \<in> keep")
    case True
    then show ?thesis using Cons.IH [of w] by simp
  next
    case False
    obtain res w' where c: "cf (DeleteRecord (rid r)) (delete_record P (rid r)) w = (res, w')"
      by (cases "cf (DeleteRecord (rid r)) (delete_record P (rid r)) w")
    then have lw: "snd w' = snd w @ [DeleteRecord (rid r)]"
      using cf_log [of "DeleteRecord (rid r)" "delete_record P (rid r)" w] by simp
    show ?thesis
    proof (cases res)
      case (Inl e)
      then show ?thesis using False c lw by simp
    next
      case (Inr u)
      from Cons.IH [of w'] obtain reqs where
        "snd (snd (cleanup P keep rs w')) = snd w' @ reqs" "list_all dns_write reqs"
        by blast
      then have "snd (snd (cleanup P keep rs w')) = snd w @ (DeleteRecord (rid r) # reqs)
          \<and> list_all dns_write (DeleteRecord (rid r) # reqs)"
        using lw by simp
      then show ?thesis using False c Inr by auto
    qed
  qed
qed

lemma listing_no_ruleset: "listing q \<Longrightarrow> \<not> ruleset_call q"
  by (cases q) simp_all

lemma dns_write_no_ruleset: "dns_write q \<Longrightarrow> \<not> ruleset_call q"
  by (cases q) simp_all

lemma applyFile_success:
  assumes "fs file = Parsed data" and "getp data ''records'' = Arr records"
    and "applyFile P fs file domain w = Some (Inr (), w')"
    and "urlRecords = filter (\<lambda>r. getp r ''type'' = Str ''URL'') records"
  shows "\<exists>all w1 keep w2 w3.
           listAllRecords P w = Some (Inr all, w1)
           \<and> apply_records P (recordsForSubdomain (getp data ''subdomain'') all domain) records {} w1
               = (Inr keep, w2)
           \<and> (if urlRecords = [] then w3 = w2
               else syncRedirects P (getp data ''subdomain'') urlRecords domain w2 = (Inr (), w3))
           \<and> cleanup P keep (recordsForSubdomain (getp data ''subdomain'') all domain) w3
               = (Inr (), w')"
  using assms
  by (auto simp: applyFile_def Let_def split: if_split_asm option.split_asm prod.split_asm
      sum.split_asm)

lemma ruleset_written_iff_url:
  assumes "fs file = Parsed data" and "getp data ''records'' = Arr records"
    and "applyFile P fs file domain w = Some (Inr (), w')"
    and "urlRecords = filter (\<lambda>r. getp r ''type'' = Str ''URL'') records"
  shows "(urlRecords = [] \<longrightarrow> list_all (\<lambda>q. \<not> ruleset_call q) (issued w w'))
         \<and> (urlRecords \<noteq> [] \<longrightarrow> (\<exists>i rules. PutRuleset i rules \<in> set (issued w w')))"
proof -
  let ?sub = "getp data ''subdomain''"
  from applyFile_success [OF assms] obtain all w1 keep w2 w3 where
    l: "listAllRecords P w = Some (Inr all, w1)"
    and r: "apply_records P (recordsForSubdomain ?sub all domain) records {} w1 = (Inr keep, w2)"
    and s: "if urlRecords = [] then w3 = w2
            else syncRedirects P ?sub urlRecords domain w2 = (Inr (), w3)"
    and c: "cleanup P keep (recordsForSubdomain ?sub all domain) w3 = (Inr (), w')"
    by blast
  from l obtain a where a: "snd w1 = snd w @ a" "list_all listing a"
    using listAllRecords_from_log [of P 1 "[]" w "(Inr all, w1)"]
    by (auto simp: listAllRecords_def)
  from r obtain b where b: "snd w2 = snd w1 @ b" "list_all dns_write b"
    using dns_log_apply_records [of P "recordsForSubdomain ?sub all domain" records "{}" w1]
    by auto
  from c obtain d where d: "snd w' = snd w3 @ d" "list_all dns_write d"
    using dns_log_cleanup [of P keep "recordsForSubdomain ?sub all domain" w3]
    by auto
  show ?thesis
  proof (cases "urlRecords = []")
    case True
    then have "w3 = w2" using s by simp
    then have "issued w w' = a @ b @ d" using a(1) b(1) d(1) by (simp add: issued_def)
    then show ?thesis
      using True a(2) b(2) d(2) listing_no_ruleset dns_write_no_ruleset
      by (auto simp: list_all_iff)
  next
    case False
    then have sr: "syncRedirects P ?sub urlRecords domain w2 = (Inr (), w3)" using s by simp
    from syncRedirects_only_ruleset_calls [of P ?sub urlRecords domain w2] sr
    obtain c' where c': "snd w3 = snd w2 @ c'" by auto
    from syncRedirects_success_writes [OF False sr]
    have "issued w2 w3 \<noteq> []" "\<exists>i rules. last (issued w2 w3) = PutRuleset i rules"
      by simp_all
    moreover have "issued w2 w3 = c'" using c' by (simp add: issued_def)
    ultimately obtain i rules where "PutRuleset i rules \<in> set c'"
      using last_in_set by metis
    moreover have "issued w w' = a @ b @ c' @ d"
      using a(1) b(1) c' d(1) by (simp add: issued_def)
    ultimately show ?thesis using False by auto
  qed
qed

text \<open>
  C1, as the code has it. A successful run of a definition without URL record issues no
  ruleset call, and a successful run of a definition with URL records always issues a
  write of the ruleset, whatever the zone holds: the guard lets the write through as
  soon as there is a new rule. When the records of the hostname's scope are converged to
  the payloads of the definition (they are those payloads, each held once under the type
  and name the definition gives) and the payloads are plain, the run issues no create,
  update or delete of a DNS record: without URL record it ends successfully after
  listing the records, and with URL records it goes on exactly as the redirect-rule
  convergence does. Nothing is said of a second run when the zone does not list the
  records under the names of the definition or the definition has two records of one
  type and name.
\<close>

theorem converged_run_issues_no_dns_write:
  assumes "fs file = Parsed data" and "getp data ''records'' = Arr records"
    and "urlRecords = filter (\<lambda>r. getp r ''type'' = Str ''URL'') records"
  shows "(applyFile P fs file domain w = Some (Inr (), w') \<longrightarrow>
            (urlRecords = [] \<longrightarrow> list_all (\<lambda>q. \<not> ruleset_call q) (issued w w'))
            \<and> (urlRecords \<noteq> [] \<longrightarrow> (\<exists>i rules. PutRuleset i rules \<in> set (issued w w'))))
         \<and> (\<not> nullish data \<and> listAllRecords P w = Some (Inr all, w1)
             \<and> map buildPayload records = map Inr payloads \<and> list_all plain payloads
             \<and> converged (recordsForSubdomain (getp data ''subdomain'') all domain) payloads \<longrightarrow>
              (\<exists>res w''. applyFile P fs file domain w = Some (res, w'')
                 \<and> list_all (\<lambda>q. \<not> dns_write q) (issued w w'')
                 \<and> (urlRecords = [] \<longrightarrow> res = Inr () \<and> list_all listing (issued w w''))
                 \<and> (urlRecords \<noteq> [] \<longrightarrow>
                       (res, w'') = syncRedirects P (getp data ''subdomain'') urlRecords domain w1)))"
proof (rule conjI; rule impI)
  assume "applyFile P fs file domain w = Some (Inr (), w')"
  from ruleset_written_iff_url [OF assms(1,2) this assms(3)]
  show "(urlRecords = [] \<longrightarrow> list_all (\<lambda>q. \<not> ruleset_call q) (issued w w'))
        \<and> (urlRecords \<noteq> [] \<longrightarrow> (\<exists>i rules. PutRuleset i rules \<in> set (issued w w')))" .
next
  let ?sub = "getp data ''subdomain''"
  assume h: "\<not> nullish data \<and> listAllRecords P w = Some (Inr all, w1)
             \<and> map buildPayload records = map Inr payloads \<and> list_all plain payloads
             \<and> converged (recordsForSubdomain (getp data ''subdomain'') all domain) payloads"
  then have h1: "\<not> nullish data" and h2: "listAllRecords P w = Some (Inr all, w1)"
    and h3: "map buildPayload records = map Inr payloads" and h4: "list_all plain payloads"
    and h5: "converged (recordsForSubdomain (getp data ''subdomain'') all domain) payloads"
    by simp_all
  have run: "applyFile P fs file domain w =
           Some (if urlRecords = [] then (Inr (), w1)
                 else syncRedirects P ?sub urlRecords domain w1)"
    using assms(1) h1 assms(2) h2 h3 h4 h5 assms(3) by (rule converged_run)
  from h2 obtain a where a: "snd w1 = snd w @ a" "list_all listing a"
    using listAllRecords_from_log [of P 1 "[]" w "(Inr all, w1)"]
    by (auto simp: listAllRecords_def)
  show "\<exists>res w''. applyFile P fs file domain w = Some (res, w'')
                 \<and> list_all (\<lambda>q. \<not> dns_write q) (issued w w'')
                 \<and> (urlRecords = [] \<longrightarrow> res = Inr () \<and> list_all listing (issued w w''))
                 \<and> (urlRecords \<noteq> [] \<longrightarrow>
                       (res, w'') = syncRedirects P ?sub urlRecords domain w1)"
  proof (cases "urlRecords = []")
    case True
    have "issued w w1 = a" using a(1) by (simp add: issued_def)
    then show ?thesis
      using True run a(2) listing_no_write by (auto simp: list_all_iff)
  next
    case False
    obtain res w'' where s: "syncRedirects P ?sub urlRecords domain w1 = (res, w'')"
      by (cases "syncRedirects P ?sub urlRecords domain w1")
    from syncRedirects_only_ruleset_calls [of P ?sub urlRecords domain w1] s
    obtain b where b: "snd w'' = snd w1 @ b" "list_all ruleset_call b" by auto
    have i: "issued w w'' = a @ b"
      using issued_append [OF a(1) b(1)] by simp
    have nw: "list_all (\<lambda>q. \<not> dns_write q) (issued w w'')"
      using i a(2) b(2) listing_no_write ruleset_call_no_write by (auto simp: list_all_iff)
    show ?thesis
      using False run s nw by auto
  qed
qed

text \<open>A record that stores a payload, as the provider above creates it, holds it.\<close>

lemma map_of_filter_key:
  "Q key \<Longrightarrow> map_of (filter (\<lambda>(k, v). Q k) p) key = map_of p key"
  by (induction p) auto

lemma record_of_holds:
  assumes "payload_get p ''type'' = Str t" and "payload_get p ''name'' = Str n"
    and "''id'' \<notin> set (map fst p)"
  shows "holds (record_of i p) p"
proof -
  have "remote_get (record_of i p) key = payload_get p key" if "key \<in> set (map fst p)" for key
  proof -
    have "key \<noteq> ''id''" using that assms(3) by blast
    moreover have "map_of (filter (\<lambda>(k, v). k \<noteq> ''type'' \<and> k \<noteq> ''name'') p) key = map_of p key"
      if "key \<noteq> ''type''" "key \<noteq> ''name''"
      using map_of_filter_key [of "\<lambda>k. k \<noteq> ''type'' \<and> k \<noteq> ''name''" key p] that by simp
    ultimately show ?thesis
      using assms(1,2) by (auto simp: remote_get_def record_of_def payload_get_def)
  qed
  then show ?thesis
    using assms(1,2) by (simp add: holds_def record_of_def list_all_iff)
qed

lemma address_first_run:
  "applyFile cloud_provider address_fs ''domains/dev.json'' (Str ''example.dev'') (cloud_start, [])
     = Some (Inr (), (cloud_address,
         [GetRecords 1, PostRecord address_payload, DeleteRecord ''r1'']))"
  by code_simp

lemma address_second_run:
  "applyFile cloud_provider address_fs ''domains/dev.json'' (Str ''example.dev'') (cloud_address, [])
     = Some (Inr (), (cloud_address, [GetRecords 1]))"
  by code_simp

lemma address_listed:
  "listAllRecords cloud_provider (cloud_address, [])
     = Some (Inr (zone_records cloud_address), (cloud_address, [GetRecords 1]))"
  by code_simp

lemma address_converged:
  "converged (recordsForSubdomain (getp address_definition ''subdomain'')
                (zone_records cloud_address) (Str ''example.dev'')) [address_payload]"
  by code_simp

lemma address_built: "map buildPayload [address_record] = map Inr [address_payload]"
  by code_simp

lemma address_plain: "list_all plain [address_payload]"
  by code_simp

text \<open>
  The first run, against a zone that holds another record in the scope, creates the
  record of the definition and deletes the other one; the zone it leaves is converged,
  and the second run issues nothing but the listing.
\<close>

theorem converged_run_issues_no_dns_write_witness:
  "applyFile cloud_provider address_fs ''domains/dev.json'' (Str ''example.dev'') (cloud_start, [])
     = Some (Inr (), (cloud_address,
         [GetRecords 1, PostRecord address_payload, DeleteRecord ''r1'']))
   \<and> list_all plain [address_payload]
   \<and> converged (recordsForSubdomain (getp address_definition ''subdomain'')
                  (zone_records cloud_address) (Str ''example.dev'')) [address_payload]
   \<and> applyFile cloud_provider address_fs ''domains/dev.json'' (Str ''example.dev'')
        (cloud_address, [])
      = Some (Inr (), (cloud_address, [GetRecords 1]))"
proof -
  have f: "address_fs ''domains/dev.json'' = Parsed address_definition"
    by (simp add: address_fs_def)
  have nn: "\<not> nullish address_definition"
    by (simp add: nullish_def address_definition_def)
  have r: "getp address_definition ''records'' = Arr [address_record]"
    by (simp add: address_definition_def)
  have u: "[] = filter (\<lambda>r. getp r ''type'' = Str ''URL'') [address_record]"
    by (simp add: address_record_def)
  from converged_run_issues_no_dns_write
    [of address_fs "''domains/dev.json''" address_definition "[address_record]" "[]"
       cloud_provider "Str ''example.dev''" "(cloud_address, [])" "(cloud_address, [GetRecords 1])"
       "zone_records cloud_address" "(cloud_address, [GetRecords 1])" "[address_payload]",
     OF f r u]
    nn address_listed address_built address_plain address_converged
  obtain res w'' where
    "applyFile cloud_provider address_fs ''domains/dev.json'' (Str ''example.dev'')
        (cloud_address, []) = Some (res, w'')"
    and "res = Inr ()" and "list_all listing (issued (cloud_address, []) w'')"
    by auto
  then have "applyFile cloud_provider address_fs ''domains/dev.json'' (Str ''example.dev'')
        (cloud_address, []) = Some (Inr (), (cloud_address, [GetRecords 1]))"
    using address_second_run by simp
  then show ?thesis
    using address_first_run address_plain address_converged by simp
qed

lemma first_run:
  "applyFile cloud_provider dev_fs ''domains/dev.json'' (Str ''example.dev'') (cloud_before, [])
   = Some (Inr (), (cloud_after,
       [GetRecords 1, PostRecord dev_payload, GetRulesets, GetRuleset ''s1'',
        PutRuleset ''s1'' [other_rule, dev_rule], DeleteRecord ''r1'']))"
  by code_simp

lemma second_run:
  "applyFile cloud_provider dev_fs ''domains/dev.json'' (Str ''example.dev'') (cloud_after, [])
   = Some (Inr (), (cloud_after,
       [GetRecords 1, GetRulesets, GetRuleset ''s1'', PutRuleset ''s1'' [other_rule, dev_rule]]))"
  by code_simp

lemma dev_converged:
  "plain dev_payload
   \<and> converged (recordsForSubdomain (Str ''dev'') (zone_records cloud_after) (Str ''example.dev''))
       [dev_payload]"
  by code_simp

lemma blog_runs:
  "validate_file [] ''domains/blog.json'' (Parsed blog_definition) = Inr ()"
  "applyFile cloud_provider blog_fs ''domains/blog.json'' (Str ''example.com'') (empty_cloud, [])
     = Some (Inr (), (cloud_blog, [GetRecords 1, PostRecord blog_payload]))"
  "applyFile cloud_provider blog_fs ''domains/blog.json'' (Str ''example.com'') (cloud_blog, [])
     = Some (Inr (), (cloud_blog \<lparr> zone_records := [record_of ''r1'' blog_payload,
                                                    record_of ''r2'' blog_payload],
                                   next_id := 3 \<rparr>,
                      [GetRecords 1, PostRecord blog_payload]))"
  "map_option (snd \<circ> snd)
     (applyFile cloud_provider blog_fs ''domains/blog.json'' (Str ''example.com'')
        (cloud_blog_full, []))
     = Some [GetRecords 1, PostRecord blog_payload, DeleteRecord ''r1'']"
  by code_simp+

lemma twin_runs:
  "validate_file [] ''domains/dev.json'' (Parsed twin_definition) = Inr ()"
  "applyFile cloud_provider twin_fs ''domains/dev.json'' (Str ''example.dev'') (empty_cloud, [])
     = Some (Inr (), (cloud_twin,
         [GetRecords 1, PostRecord (twin_payload ''one''), PostRecord (twin_payload ''two'')]))"
  "map_option (snd \<circ> snd)
     (applyFile cloud_provider twin_fs ''domains/dev.json'' (Str ''example.dev'') (cloud_twin, []))
     = Some [GetRecords 1, PutRecord ''r1'' (twin_payload ''two''), DeleteRecord ''r2'']"
  by code_simp+

lemma nested_runs:
  "applyFile cloud_provider nested_fs ''domains/dev.json'' (Str ''example.dev'') (empty_cloud, [])
     = Some (Inr (), (cloud_nested, [GetRecords 1, PostRecord nested_payload]))"
  "map_option (snd \<circ> snd)
     (applyFile cloud_provider nested_fs ''domains/dev.json'' (Str ''example.dev'')
        (cloud_nested, []))
     = Some [GetRecords 1, PutRecord ''r1'' nested_payload]"
  by code_simp+

text \<open>
  Four second runs, each against the state that the first run left, that issue a write.
  The definition of \<open>dev\<close> with a URL record: the zone is converged, and the ruleset is
  written again. The scenario of the specification, which the validator accepts: the
  record is named \<open>blog\<close>, the scope is \<open>blog.example.com\<close>, and the record is created
  again (and, against a zone that lists it under its full name, created and the listed
  one deleted). Two TXT records of one name, which the validator accepts: the first
  record is updated and the second deleted. A record whose value is an array: it is
  updated.
\<close>

theorem second_run_writes_again:
  "applyFile cloud_provider dev_fs ''domains/dev.json'' (Str ''example.dev'') (cloud_before, [])
     = Some (Inr (), (cloud_after,
         [GetRecords 1, PostRecord dev_payload, GetRulesets, GetRuleset ''s1'',
          PutRuleset ''s1'' [other_rule, dev_rule], DeleteRecord ''r1'']))
   \<and> plain dev_payload
   \<and> converged (recordsForSubdomain (Str ''dev'') (zone_records cloud_after) (Str ''example.dev''))
       [dev_payload]
   \<and> applyFile cloud_provider dev_fs ''domains/dev.json'' (Str ''example.dev'') (cloud_after, [])
     = Some (Inr (), (cloud_after,
         [GetRecords 1, GetRulesets, GetRuleset ''s1'',
          PutRuleset ''s1'' [other_rule, dev_rule]]))
   \<and> validate_file [] ''domains/blog.json'' (Parsed blog_definition) = Inr ()
   \<and> applyFile cloud_provider blog_fs ''domains/blog.json'' (Str ''example.com'') (empty_cloud, [])
     = Some (Inr (), (cloud_blog, [GetRecords 1, PostRecord blog_payload]))
   \<and> map_option (snd \<circ> snd)
        (applyFile cloud_provider blog_fs ''domains/blog.json'' (Str ''example.com'')
           (cloud_blog, []))
     = Some [GetRecords 1, PostRecord blog_payload]
   \<and> map_option (snd \<circ> snd)
        (applyFile cloud_provider blog_fs ''domains/blog.json'' (Str ''example.com'')
           (cloud_blog_full, []))
     = Some [GetRecords 1, PostRecord blog_payload, DeleteRecord ''r1'']
   \<and> validate_file [] ''domains/dev.json'' (Parsed twin_definition) = Inr ()
   \<and> applyFile cloud_provider twin_fs ''domains/dev.json'' (Str ''example.dev'') (empty_cloud, [])
     = Some (Inr (), (cloud_twin,
         [GetRecords 1, PostRecord (twin_payload ''one''), PostRecord (twin_payload ''two'')]))
   \<and> map_option (snd \<circ> snd)
        (applyFile cloud_provider twin_fs ''domains/dev.json'' (Str ''example.dev'')
           (cloud_twin, []))
     = Some [GetRecords 1, PutRecord ''r1'' (twin_payload ''two''), DeleteRecord ''r2'']
   \<and> applyFile cloud_provider nested_fs ''domains/dev.json'' (Str ''example.dev'') (empty_cloud, [])
     = Some (Inr (), (cloud_nested, [GetRecords 1, PostRecord nested_payload]))
   \<and> map_option (snd \<circ> snd)
        (applyFile cloud_provider nested_fs ''domains/dev.json'' (Str ''example.dev'')
           (cloud_nested, []))
     = Some [GetRecords 1, PutRecord ''r1'' nested_payload]"
  using first_run dev_converged second_run blog_runs twin_runs nested_runs
  by simp

section \<open>The order of the calls of one file\<close>

text \<open>
  C2. The provider holds a record in the scope of \<open>dev\<close> that the definition does not
  have, and the definition has a URL record. The run creates the record of the
  definition, then reads and writes the ruleset, and only then deletes the record that
  was not kept: the cleanup loop comes after the call of the redirect-rule convergence.
\<close>

theorem delete_after_redirects:
  "map_option (snd \<circ> snd)
     (applyFile cloud_provider dev_fs ''domains/dev.json'' (Str ''example.dev'') (cloud_before, []))
   = Some [GetRecords 1, PostRecord dev_payload, GetRulesets, GetRuleset ''s1'',
           PutRuleset ''s1'' [other_rule, dev_rule], DeleteRecord ''r1'']"
  by (simp add: first_run)

theorem delete_after_redirects_witness:
  "rid stale_record = ''r1''
   \<and> stale_record \<in> set (recordsForSubdomain (Str ''dev'') (zone_records cloud_before)
                            (Str ''example.dev''))
   \<and> (\<exists>pre. map_option (snd \<circ> snd)
          (applyFile cloud_provider dev_fs ''domains/dev.json'' (Str ''example.dev'')
             (cloud_before, []))
        = Some (pre @ [PutRuleset ''s1'' [other_rule, dev_rule], DeleteRecord ''r1'']))"
proof -
  have "rid stale_record = ''r1''" by (simp add: stale_record_def)
  moreover have "stale_record \<in> set (recordsForSubdomain (Str ''dev'') (zone_records cloud_before)
                            (Str ''example.dev''))"
    by code_simp
  moreover have "map_option (snd \<circ> snd)
          (applyFile cloud_provider dev_fs ''domains/dev.json'' (Str ''example.dev'')
             (cloud_before, []))
        = Some ([GetRecords 1, PostRecord dev_payload, GetRulesets, GetRuleset ''s1'']
                @ [PutRuleset ''s1'' [other_rule, dev_rule], DeleteRecord ''r1''])"
    using delete_after_redirects by simp
  ultimately show ?thesis by blast
qed

end
